theory Spec2Isabelle
  imports Main
begin

section \<open>The relay server (src/server.ts) as an event-driven state machine\<close>

text \<open>
  The server is one Node.js process. Everything it does is a reaction to an event: a
  transport (socket.io) event of a browser client, an event of a protocol-client instance
  (\<^verbatim>\<open>socket.ev\<close>), or the settling of a promise that a handler awaits. Between two
  \<^verbatim>\<open>await\<close>s a handler runs without interruption, so each handler is cut at its
  \<^verbatim>\<open>await\<close>s into pieces that are atomic state transformers; the suspended rest of a
  handler is a \<open>task\<close> kept in the state until the awaited promise settles.

  What the external libraries answer (does the connection get established, does the
  credential directory exist, what does the snapshot file hold, which groups does the
  account participate in) is an input of the event that delivers the answer. What the
  program asks of the outside world (notifications to transport clients, connection
  attempts, deletion of the credential directory, rejected handler promises) is recorded
  in order in the \<open>trace\<close>. Console output is not modelled.
\<close>

subsection \<open>Data\<close>

type_synonym user_id = string
type_synonym client_id = string

text \<open>A protocol-client instance (the result of \<^verbatim>\<open>makeWASocket\<close>) is named by its
  position in the list of all instances ever made.\<close>

type_synonym inst_id = nat

datatype status = Connected | Disconnected | AlreadyConnected

text \<open>The four descriptions sent with the \<^verbatim>\<open>error\<close> notification: lines 157, 174, 224, 234.\<close>

datatype err_msg = UserIdNotProvided | ConnectFailed | NotConnected | SendFailed

record chat =
  chat_id :: string
  chat_name :: string
  participants :: "string list"
  conversationTimestamp :: nat
  unreadCount :: nat
  messages :: "string list"

text \<open>One value of the object returned by \<^verbatim>\<open>groupFetchAllParticipating\<close>.\<close>

record group_metadata =
  group_id :: string
  subject :: string
  group_participants :: "string list"
  creation :: nat

datatype out_event =
    Qr string
  | Status status
  | Message string
  | Groups "chat set"
  | MessageStatusSent
  | ErrorEv err_msg

datatype exn = ConnectError | TypeError | FetchError

datatype effect =
    Emit client_id out_event
  | ConnectStart user_id
  | RmCreds user_id
  | SaveCreds user_id
  | FetchGroups inst_id
  | StartFlush user_id
  | SendText inst_id string string
  | UnhandledRejection exn

text \<open>
  \<open>Emit c e\<close> is \<^verbatim>\<open>client.emit\<close> on the transport client \<open>c\<close>; \<open>ConnectStart u\<close> is a call of
  \<^verbatim>\<open>connectWhatsApp(u)\<close>, which at once asks the library for the credential material under
  \<^verbatim>\<open>multi_auth_info_<u>\<close>; \<open>RmCreds u\<close> is \<^verbatim>\<open>fs.rmSync\<close> of that directory; \<open>StartFlush u\<close> is
  the \<^verbatim>\<open>setInterval\<close> of \<^verbatim>\<open>createUserStore\<close>; \<open>UnhandledRejection x\<close> is an exception that
  leaves an \<^verbatim>\<open>async\<close> handler, which nothing catches. What the runtime does with it
  (current Node.js versions end the process) is outside the source; the model records it
  and goes on.
\<close>

text \<open>The value stored in \<^verbatim>\<open>activeSockets\<close> (line 171).\<close>

record entry =
  clientId :: client_id
  baileysInstance :: inst_id

text \<open>
  A protocol-client instance with what this program attaches to it: the \<^verbatim>\<open>userId\<close> and the
  \<^verbatim>\<open>client\<close> that its \<^verbatim>\<open>connection.update\<close> listener closes over, whether the listeners that
  \<^verbatim>\<open>connectWhatsApp\<close> registered are attached, how many \<^verbatim>\<open>messages.upsert\<close> listeners the auth
  handler has added, and whether \<^verbatim>\<open>ws.close()\<close> was called. Nothing in the source detaches a
  listener (see \<open>disconnect_handler\<close>), so \<open>listening\<close> stays as \<^verbatim>\<open>connectWhatsApp\<close> sets it
  (\<open>listeners_inv_run\<close> below).
\<close>

record wa_socket =
  sock_user :: user_id
  sock_client :: client_id
  listening :: bool
  upsert_listeners :: nat
  ws_closed :: bool

text \<open>
  The closure of one \<^verbatim>\<open>io.on('connection')\<close> call: whether a connection with this client
  id has been made (the transport gives every connection an id of its own), whether the
  transport client is connected with its \<^verbatim>\<open>auth\<close> and \<^verbatim>\<open>sendMessage\<close> handlers registered,
  the variable \<^verbatim>\<open>let baileysInstance\<close> (undefined at first), and the \<^verbatim>\<open>userId\<close>s of the
  auth handler runs that registered a \<^verbatim>\<open>disconnect\<close> and a \<^verbatim>\<open>listGroups\<close> handler, in
  registration order.
\<close>

record closure =
  seen :: bool
  live :: bool
  let_baileysInstance :: "inst_id option"
  auth_handlers :: "user_id list"

text \<open>The rest of a handler that is suspended at an \<^verbatim>\<open>await\<close>.\<close>

datatype task =
    AuthK client_id user_id
  | ReconnK inst_id
  | OpenK inst_id
  | SendK client_id

record state =
  activeSockets :: "user_id \<rightharpoonup> entry"
  userStores :: "user_id \<rightharpoonup> chat set"
  sockets :: "wa_socket list"
  clients :: "client_id \<Rightarrow> closure"
  pending :: "task list"
  trace :: "effect list"

definition init :: state where
  "init = \<lparr>activeSockets = Map.empty, userStores = Map.empty, sockets = [],
           clients = (\<lambda>c. \<lparr>seen = False, live = False, let_baileysInstance = None,
                           auth_handlers = []\<rparr>),
           pending = [], trace = []\<rparr>"

text \<open>What the protocol library reports in one \<^verbatim>\<open>connection.update\<close>; \<open>statusCode\<close> is
  \<^verbatim>\<open>lastDisconnect?.error?.output?.statusCode\<close>, \<open>None\<close> when undefined.\<close>

datatype conn = Open | Close | Connecting

record update =
  connection :: "conn option"
  statusCode :: "int option"
  qr :: "string option"

text \<open>\<^verbatim>\<open>DisconnectReason.loggedOut\<close> is declared by the protocol library, not by this
  repository; no general theorem below depends on its value.\<close>

definition loggedOut :: int where
  "loggedOut = 401"

text \<open>How \<^verbatim>\<open>await connectWhatsApp(userId)\<close> settles: with a new instance, or with the
  exception that the \<^verbatim>\<open>catch\<close> of lines 144-147 rethrows.\<close>

datatype conn_outcome = Established | ConnThrows

subsection \<open>Helpers\<close>

definition effect :: "effect \<Rightarrow> state \<Rightarrow> state" where
  "effect e s = s\<lparr>trace := trace s @ [e]\<rparr>"

definition emit :: "client_id \<Rightarrow> out_event \<Rightarrow> state \<Rightarrow> state" where
  "emit c e s = effect (Emit c e) s"

definition upd_client :: "client_id \<Rightarrow> (closure \<Rightarrow> closure) \<Rightarrow> state \<Rightarrow> state" where
  "upd_client c f s = s\<lparr>clients := (clients s)(c := f (clients s c))\<rparr>"

definition suspend :: "task \<Rightarrow> state \<Rightarrow> state" where
  "suspend t s = s\<lparr>pending := pending s @ [t]\<rparr>"

definition endsWith :: "string \<Rightarrow> string \<Rightarrow> bool" where
  "endsWith str suf =
     (length suf \<le> length str \<and> drop (length str - length suf) str = suf)"

text \<open>\<^verbatim>\<open>ws.close()\<close> on instance \<open>i\<close>.\<close>

definition ws_close :: "inst_id \<Rightarrow> wa_socket list \<Rightarrow> wa_socket list" where
  "ws_close i xs = xs[i := (xs ! i)\<lparr>ws_closed := True\<rparr>]"

subsection \<open>The user store (lines 30-55)\<close>

text \<open>
  The store of a user is the set of its chats. The library keeps them sorted by a key of
  its own, and \<^verbatim>\<open>chats.all()\<close> lists them in that order; the key is not part of this
  source, so the model keeps no order: neither for the store nor for the array that
  \<^verbatim>\<open>listGroups\<close> sends.

  \<^verbatim>\<open>createUserStore\<close>: an existing store is returned as it is; a new one is filled from the
  snapshot file (\<open>from_file\<close>, the chats that \<^verbatim>\<open>readFromFile\<close> loads) and gets its flush
  timer.
\<close>

definition createUserStore :: "user_id \<Rightarrow> chat list \<Rightarrow> state \<Rightarrow> state" where
  "createUserStore u from_file s =
     (case userStores s u of
        Some st \<Rightarrow> s
      | None \<Rightarrow>
          effect (StartFlush u) (s\<lparr>userStores := (userStores s)(u \<mapsto> set from_file)\<rparr>))"

definition getUserStore :: "state \<Rightarrow> user_id \<Rightarrow> chat set option" where
  "getUserStore s u = userStores s u"

text \<open>Whether \<^verbatim>\<open>store.chats.get(id)\<close> finds a chat.\<close>

definition chats_has :: "chat set \<Rightarrow> string \<Rightarrow> bool" where
  "chats_has st i \<longleftrightarrow> i \<in> chat_id ` st"

text \<open>Lines 122-129.\<close>

definition chat_of_group :: "group_metadata \<Rightarrow> chat" where
  "chat_of_group g =
     \<lparr>chat_id = group_id g, chat_name = subject g, participants = group_participants g,
      conversationTimestamp = creation g, unreadCount = 0, messages = []\<rparr>"

text \<open>The body of the \<^verbatim>\<open>forEach\<close> of lines 131-136.\<close>

definition insert_if_absent :: "chat set \<Rightarrow> chat \<Rightarrow> chat set" where
  "insert_if_absent st ch = (if chats_has st (chat_id ch) then st else insert ch st)"

subsection \<open>\<^verbatim>\<open>connectWhatsApp\<close> (lines 67-148)\<close>

text \<open>
  The call starts the credential load at once and then awaits the library twice; it
  touches no state of this program before its last \<^verbatim>\<open>await\<close>. When the library has
  answered, the instance is made, the two listeners are registered and the instance is
  returned, or the exception is rethrown.
\<close>

definition connectWhatsApp_call :: "user_id \<Rightarrow> state \<Rightarrow> state" where
  "connectWhatsApp_call u s = effect (ConnectStart u) s"

definition new_socket :: "user_id \<Rightarrow> client_id \<Rightarrow> wa_socket" where
  "new_socket u c =
     \<lparr>sock_user = u, sock_client = c, listening = True, upsert_listeners = 0, ws_closed = False\<rparr>"

definition connectWhatsApp_return ::
  "client_id \<Rightarrow> user_id \<Rightarrow> conn_outcome \<Rightarrow> state \<Rightarrow> state \<times> (exn + inst_id)" where
  "connectWhatsApp_return c u out s =
     (case out of
        ConnThrows \<Rightarrow> (s, Inl ConnectError)
      | Established \<Rightarrow> (s\<lparr>sockets := sockets s @ [new_socket u c]\<rparr>, Inr (length (sockets s))))"

subsection \<open>The \<^verbatim>\<open>connection.update\<close> listener (lines 82-139)\<close>

definition relay_qr :: "client_id \<Rightarrow> update \<Rightarrow> effect list" where
  "relay_qr c upd = (case qr upd of None \<Rightarrow> [] | Some q \<Rightarrow> if q = [] then [] else [Emit c (Qr q)])"

text \<open>
  The listener of instance \<open>i\<close> up to its first \<^verbatim>\<open>await\<close>. \<open>path_exists\<close> is what
  \<^verbatim>\<open>fs.existsSync\<close> answers for the credential directory, \<open>from_file\<close> what the snapshot
  file holds if a store is created.
\<close>

definition on_connection_update ::
  "inst_id \<Rightarrow> update \<Rightarrow> bool \<Rightarrow> chat list \<Rightarrow> state \<Rightarrow> state" where
  "on_connection_update i upd path_exists from_file s =
     (let u = sock_user (sockets s ! i);
          c = sock_client (sockets s ! i);
          s1 = s\<lparr>trace := trace s @ relay_qr c upd\<rparr>
      in if connection upd = Some Close then
           (if activeSockets s1 u = None then s1
            else if statusCode upd \<noteq> Some loggedOut then
              connectWhatsApp_call u (suspend (ReconnK i) s1)
            else if path_exists then
              emit c (Status Disconnected)
                ((effect (RmCreds u) s1)\<lparr>activeSockets := (activeSockets s1)(u := None)\<rparr>)
            else s1)
         else if connection upd = Some Open then
           effect (FetchGroups i)
             (suspend (OpenK i) (createUserStore u from_file (emit c (Status Connected) s1)))
         else s1)"

text \<open>Line 103 after the \<^verbatim>\<open>await\<close>: the returned instance is dropped; a rethrown
  exception leaves the listener.\<close>

definition reconnect_resume :: "inst_id \<Rightarrow> conn_outcome \<Rightarrow> state \<Rightarrow> state" where
  "reconnect_resume i out s =
     (case connectWhatsApp_return (sock_client (sockets s ! i)) (sock_user (sockets s ! i)) out s of
        (s1, Inl e) \<Rightarrow> effect (UnhandledRejection e) s1
      | (s1, Inr j) \<Rightarrow> s1)"

text \<open>
  Lines 120-137 after the \<^verbatim>\<open>await\<close>; \<open>fetched\<close> is \<open>None\<close> when the group fetch rejects. The
  store is the one that the first half created or found; stores are never removed from
  \<^verbatim>\<open>userStores\<close>, so it is still the one registered for the user, and the branch for a
  missing store is never taken (\<open>task_inv_run\<close> below).
\<close>

definition open_resume :: "inst_id \<Rightarrow> group_metadata list option \<Rightarrow> state \<Rightarrow> state" where
  "open_resume i fetched s =
     (let u = sock_user (sockets s ! i)
      in case fetched of
           None \<Rightarrow> effect (UnhandledRejection FetchError) s
         | Some gs \<Rightarrow>
             (case userStores s u of
                None \<Rightarrow> s
              | Some st \<Rightarrow>
                  s\<lparr>userStores :=
                      (userStores s)(u \<mapsto> foldl insert_if_absent st (map chat_of_group gs))\<rparr>))"

subsection \<open>The transport handlers (lines 57-66, 152-236)\<close>

text \<open>\<^verbatim>\<open>io.on('connection')\<close>: the guard of line 60 looks the client id up among the user
  ids; a client that passes gets its \<^verbatim>\<open>auth\<close> and \<^verbatim>\<open>sendMessage\<close> handlers.\<close>

definition on_connection :: "client_id \<Rightarrow> state \<Rightarrow> state" where
  "on_connection c s =
     (if activeSockets s c \<noteq> None then upd_client c (\<lambda>k. k\<lparr>seen := True\<rparr>) s
      else upd_client c (\<lambda>k. k\<lparr>seen := True, live := True\<rparr>) s)"

text \<open>The auth handler up to its \<^verbatim>\<open>await\<close> (lines 152-170); \<open>data\<close> is \<^verbatim>\<open>data.userId\<close>,
  \<open>None\<close> when undefined. The empty string is falsy.\<close>

definition on_auth :: "client_id \<Rightarrow> user_id option \<Rightarrow> state \<Rightarrow> state" where
  "on_auth c data s =
     (case data of
        None \<Rightarrow> emit c (ErrorEv UserIdNotProvided) s
      | Some u \<Rightarrow>
          if u = [] then emit c (ErrorEv UserIdNotProvided) s
          else if activeSockets s u \<noteq> None then emit c (Status AlreadyConnected) s
          else connectWhatsApp_call u (suspend (AuthK c u) s))"

text \<open>
  The auth handler from the settling of the \<^verbatim>\<open>await\<close> on (lines 170-217): the \<^verbatim>\<open>try\<close>
  assigns the variable and stores the entry, the \<^verbatim>\<open>catch\<close> notifies; after either, line
  178 dereferences the variable, and only if that succeeds are the three handlers
  registered: the \<^verbatim>\<open>messages.upsert\<close> listener on the instance that the variable holds, and
  the \<^verbatim>\<open>disconnect\<close> and \<^verbatim>\<open>listGroups\<close> handlers on the client. The variable always holds
  an existing instance (\<open>closure_inv_run\<close> below).
\<close>

definition auth_resume :: "client_id \<Rightarrow> user_id \<Rightarrow> conn_outcome \<Rightarrow> state \<Rightarrow> state" where
  "auth_resume c u out s =
     (let s2 = (case connectWhatsApp_return c u out s of
                  (s1, Inr i) \<Rightarrow>
                    (upd_client c (\<lambda>k. k\<lparr>let_baileysInstance := Some i\<rparr>) s1)
                      \<lparr>activeSockets :=
                         (activeSockets s1)(u \<mapsto> \<lparr>clientId = c, baileysInstance = i\<rparr>)\<rparr>
                | (s1, Inl e) \<Rightarrow> emit c (ErrorEv ConnectFailed) s1)
      in case let_baileysInstance (clients s2 c) of
           None \<Rightarrow> effect (UnhandledRejection TypeError) s2
         | Some i \<Rightarrow>
             upd_client c (\<lambda>k. k\<lparr>auth_handlers := auth_handlers k @ [u]\<rparr>)
               (s2\<lparr>sockets :=
                    (sockets s2)[i := (sockets s2 ! i)
                       \<lparr>upsert_listeners := Suc (upsert_listeners (sockets s2 ! i))\<rparr>]\<rparr>))"

text \<open>
  The \<^verbatim>\<open>disconnect\<close> handler that the auth handler run for \<open>u\<close> registered on \<open>c\<close>
  (lines 183-199). Line 194 calls \<^verbatim>\<open>removeAllListeners(undefined)\<close>: with an argument, the
  emitter removes the listeners of the event of that name, and no listener is registered
  for an event named \<^verbatim>\<open>undefined\<close>, so no listener is removed. Of the teardown only
  \<^verbatim>\<open>ws.close()\<close> takes effect, on the instance that the variable \<^verbatim>\<open>baileysInstance\<close> of
  the connection holds.
\<close>

definition disconnect_handler :: "client_id \<Rightarrow> user_id \<Rightarrow> state \<Rightarrow> state" where
  "disconnect_handler c u s =
     (case activeSockets s u of
        None \<Rightarrow> s
      | Some e \<Rightarrow>
          if clientId e = c then
            (let s1 = s\<lparr>activeSockets := (activeSockets s)(u := None)\<rparr>
             in case let_baileysInstance (clients s1 c) of
                  None \<Rightarrow> s1
                | Some i \<Rightarrow> s1\<lparr>sockets := ws_close i (sockets s1)\<rparr>)
          else s)"

text \<open>The \<^verbatim>\<open>listGroups\<close> handler registered by the auth handler run for \<open>u\<close> (lines
  202-216): without a store, line 205 throws, and the \<^verbatim>\<open>catch\<close> only logs.\<close>

definition filter_groups :: "chat set \<Rightarrow> chat set" where
  "filter_groups allChats = {ch \<in> allChats. endsWith (chat_id ch) ''@g.us''}"

definition listGroups_handler :: "client_id \<Rightarrow> user_id \<Rightarrow> state \<Rightarrow> state" where
  "listGroups_handler c u s =
     (case getUserStore s u of
        None \<Rightarrow> s
      | Some allChats \<Rightarrow> emit c (Groups (filter_groups allChats)) s)"

text \<open>The \<^verbatim>\<open>sendMessage\<close> handler (lines 220-236), before and after its \<^verbatim>\<open>await\<close>.\<close>

definition on_sendMessage :: "client_id \<Rightarrow> string \<Rightarrow> string \<Rightarrow> state \<Rightarrow> state" where
  "on_sendMessage c groupId message s =
     (case let_baileysInstance (clients s c) of
        None \<Rightarrow> emit c (ErrorEv NotConnected) s
      | Some i \<Rightarrow> effect (SendText i groupId message) (suspend (SendK c) s))"

definition send_resume :: "client_id \<Rightarrow> bool \<Rightarrow> state \<Rightarrow> state" where
  "send_resume c ok s =
     (if ok then emit c MessageStatusSent s else emit c (ErrorEv SendFailed) s)"

subsection \<open>The event loop\<close>

text \<open>
  A connection event comes once for a client id. An event of a transport client reaches
  the handlers registered on it, in registration order, as long as the client is
  connected. An event of a protocol-client instance reaches the listeners attached to
  it. A settled promise resumes a task that is suspended on it.
\<close>

datatype event =
    IoConnection client_id
  | ClientAuth client_id "user_id option"
  | ClientListGroups client_id
  | ClientSendMessage client_id string string
  | ClientDisconnect client_id
  | AuthConnectDone client_id user_id conn_outcome
  | ReconnectDone inst_id conn_outcome
  | GroupsFetched inst_id "group_metadata list option"
  | SendDone client_id bool
  | WaConnectionUpdate inst_id update bool "chat list"
  | WaCredsUpdate inst_id
  | WaMessagesUpsert inst_id string

definition resume :: "task \<Rightarrow> (state \<Rightarrow> state) \<Rightarrow> state \<Rightarrow> state" where
  "resume t k s = (if t \<in> set (pending s) then k (s\<lparr>pending := remove1 t (pending s)\<rparr>) else s)"

fun step :: "state \<Rightarrow> event \<Rightarrow> state" where
  "step s (IoConnection c) = (if seen (clients s c) then s else on_connection c s)"
| "step s (ClientAuth c data) = (if live (clients s c) then on_auth c data s else s)"
| "step s (ClientListGroups c) =
     (if live (clients s c)
      then fold (listGroups_handler c) (auth_handlers (clients s c)) s else s)"
| "step s (ClientSendMessage c groupId message) =
     (if live (clients s c) then on_sendMessage c groupId message s else s)"
| "step s (ClientDisconnect c) =
     (if live (clients s c)
      then fold (disconnect_handler c) (auth_handlers (clients s c))
             (upd_client c (\<lambda>k. k\<lparr>live := False\<rparr>) s)
      else s)"
| "step s (AuthConnectDone c u out) = resume (AuthK c u) (auth_resume c u out) s"
| "step s (ReconnectDone i out) = resume (ReconnK i) (reconnect_resume i out) s"
| "step s (GroupsFetched i fetched) = resume (OpenK i) (open_resume i fetched) s"
| "step s (SendDone c ok) = resume (SendK c) (send_resume c ok) s"
| "step s (WaConnectionUpdate i upd path_exists from_file) =
     (if i < length (sockets s) \<and> listening (sockets s ! i)
      then on_connection_update i upd path_exists from_file s else s)"
| "step s (WaCredsUpdate i) =
     (if i < length (sockets s) \<and> listening (sockets s ! i)
      then effect (SaveCreds (sock_user (sockets s ! i))) s else s)"
| "step s (WaMessagesUpsert i m) =
     (if i < length (sockets s)
      then s\<lparr>trace := trace s @
               replicate (upsert_listeners (sockets s ! i)) (Emit (sock_client (sockets s ! i)) (Message m))\<rparr>
      else s)"

definition run :: "event list \<Rightarrow> state" where
  "run evs = foldl step init evs"

subsection \<open>Vocabulary of the properties\<close>

text \<open>The users for which \<^verbatim>\<open>connectWhatsApp\<close> was called, in call order.\<close>

fun connect_attempts :: "effect list \<Rightarrow> user_id list" where
  "connect_attempts [] = []"
| "connect_attempts (ConnectStart u # es) = u # connect_attempts es"
| "connect_attempts (e # es) = connect_attempts es"

text \<open>What one \<^verbatim>\<open>listGroups\<close> handler bound to user \<open>u\<close> sends to client \<open>c\<close> in state \<open>s\<close>.\<close>

definition groups_reply :: "state \<Rightarrow> client_id \<Rightarrow> user_id \<Rightarrow> effect list" where
  "groups_reply s c u =
     (case userStores s u of None \<Rightarrow> [] | Some st \<Rightarrow> [Emit c (Groups (filter_groups st))])"



text \<open>
  Who made which instance: the instance stored in an entry was made in the connection of
  the client stored beside it, and the variable \<^verbatim>\<open>baileysInstance\<close> of a connection holds
  an instance made in that connection.
\<close>

definition closure_inv :: "state \<Rightarrow> bool" where
  "closure_inv s \<longleftrightarrow>
     (\<forall>u e. activeSockets s u = Some e \<longrightarrow>
        baileysInstance e < length (sockets s) \<and>
        sock_client (sockets s ! baileysInstance e) = clientId e) \<and>
     (\<forall>c i. let_baileysInstance (clients s c) = Some i \<longrightarrow>
        i < length (sockets s) \<and> sock_client (sockets s ! i) = c)"

text \<open>
  A task that waits for a reconnect or for a group fetch names an existing instance, and
  the user of an instance that waits for its group fetch has a store.
\<close>

definition task_inv :: "state \<Rightarrow> bool" where
  "task_inv s \<longleftrightarrow>
     (\<forall>i. ReconnK i \<in> set (pending s) \<longrightarrow> i < length (sockets s)) \<and>
     (\<forall>i. OpenK i \<in> set (pending s) \<longrightarrow>
        i < length (sockets s) \<and> userStores s (sock_user (sockets s ! i)) \<noteq> None)"

text \<open>Every instance has the listeners that \<^verbatim>\<open>connectWhatsApp\<close> registered.\<close>

definition listeners_inv :: "state \<Rightarrow> bool" where
  "listeners_inv s \<longleftrightarrow> (\<forall>i. i < length (sockets s) \<longrightarrow> listening (sockets s ! i))"

section \<open>Properties\<close>

lemma filter_groups_empty: "filter_groups {} = {}"
  by (simp add: filter_groups_def)

lemma filter_groups_insert:
  "filter_groups (insert ch st)
     = (if endsWith (chat_id ch) ''@g.us'' then insert ch (filter_groups st)
        else filter_groups st)"
  by (auto simp: filter_groups_def)

lemmas handler_defs = run_def init_def resume_def on_connection_def on_auth_def auth_resume_def
  connectWhatsApp_call_def connectWhatsApp_return_def new_socket_def effect_def emit_def
  upd_client_def suspend_def on_connection_update_def relay_qr_def reconnect_resume_def
  open_resume_def createUserStore_def getUserStore_def listGroups_handler_def
  disconnect_handler_def ws_close_def insert_if_absent_def chats_has_def chat_of_group_def
  endsWith_def filter_groups_empty filter_groups_insert on_sendMessage_def send_resume_def
  Let_def

lemma connect_attempts_append:
  "connect_attempts (xs @ ys) = connect_attempts xs @ connect_attempts ys"
  by (induction xs rule: connect_attempts.induct) simp_all

lemma connect_attempts_relay_qr: "connect_attempts (relay_qr c upd) = []"
  by (simp add: relay_qr_def split: option.split)

subsection \<open>Invariants of the reachable states\<close>

text \<open>One \<^verbatim>\<open>listGroups\<close> command only adds to the trace.\<close>

lemma listGroups_handler_eq:
  "listGroups_handler c u s = s\<lparr>trace := trace s @ groups_reply s c u\<rparr>"
  by (simp add: listGroups_handler_def getUserStore_def groups_reply_def emit_def effect_def
        split: option.splits)

lemma groups_reply_trace [simp]: "groups_reply (s\<lparr>trace := t\<rparr>) c = groups_reply s c"
  by (rule ext) (simp add: groups_reply_def)

lemma fold_listGroups_handler:
  "fold (listGroups_handler c) hs s
     = s\<lparr>trace := trace s @ concat (map (groups_reply s c) hs)\<rparr>"
proof (induction hs arbitrary: s)
  case Nil
  then show ?case by simp
next
  case (Cons h hs)
  let ?s1 = "listGroups_handler c h s"
  have "fold (listGroups_handler c) (h # hs) s = fold (listGroups_handler c) hs ?s1"
    by simp
  also have "\<dots> = ?s1\<lparr>trace := trace ?s1 @ concat (map (groups_reply ?s1 c) hs)\<rparr>"
    by (rule Cons.IH)
  also have "\<dots> = s\<lparr>trace := trace s @ concat (map (groups_reply s c) (h # hs))\<rparr>"
    by (simp add: listGroups_handler_eq)
  finally show ?case .
qed


lemma closure_inv_trace [simp]: "closure_inv (s\<lparr>trace := t\<rparr>) = closure_inv s"
  by (simp add: closure_inv_def)

lemma closure_inv_pending [simp]: "closure_inv (s\<lparr>pending := t\<rparr>) = closure_inv s"
  by (simp add: closure_inv_def)

lemma closure_inv_userStores [simp]: "closure_inv (s\<lparr>userStores := t\<rparr>) = closure_inv s"
  by (simp add: closure_inv_def)













text \<open>
  The invariant \<open>task_inv\<close> holds in every state the server can reach: a resumed handler
  finds the instance it belongs to, and the second half of the open handler finds the
  store that its first half created or found.
\<close>

lemma task_inv_init: "task_inv init"
  by (simp add: task_inv_def init_def)

lemma task_inv_later:
  assumes "task_inv s" and "set (pending s') \<subseteq> set (pending s)"
    and "length (sockets s) \<le> length (sockets s')"
    and "\<And>i. i < length (sockets s) \<Longrightarrow> sock_user (sockets s' ! i) = sock_user (sockets s ! i)"
    and "\<And>u. userStores s u \<noteq> None \<Longrightarrow> userStores s' u \<noteq> None"
  shows "task_inv s'"
  unfolding task_inv_def
proof (intro conjI allI impI)
  fix i assume "ReconnK i \<in> set (pending s')"
  then have "i < length (sockets s)"
    using assms(1,2) by (auto simp: task_inv_def)
  then show "i < length (sockets s')"
    using assms(3) by simp
next
  fix i assume "OpenK i \<in> set (pending s')"
  then have "i < length (sockets s)"
    using assms(1,2) by (auto simp: task_inv_def)
  then show "i < length (sockets s')"
    using assms(3) by simp
next
  fix i assume "OpenK i \<in> set (pending s')"
  then have i: "i < length (sockets s)" and u: "userStores s (sock_user (sockets s ! i)) \<noteq> None"
    using assms(1,2) by (auto simp: task_inv_def)
  show "userStores s' (sock_user (sockets s' ! i)) \<noteq> None"
    using u assms(4) [OF i] assms(5) by simp
qed

lemma task_inv_trace [simp]: "task_inv (s\<lparr>trace := t\<rparr>) = task_inv s"
  by (simp add: task_inv_def)

lemma task_inv_drop:
  "task_inv s \<Longrightarrow> task_inv (s\<lparr>pending := remove1 t (pending s)\<rparr>)"
  using set_remove1_subset [of t "pending s"] by (auto simp: task_inv_def)

lemma nth_list_update_field:
  assumes "\<And>y. g (f y) = g y"
  shows "g (xs[j := f (xs ! j)] ! i) = g (xs ! i)"
  using assms by (cases "j < length xs") (auto simp: nth_list_update list_update_beyond)

lemma sock_user_ws_close [simp]: "sock_user (ws_close j xs ! i) = sock_user (xs ! i)"
  unfolding ws_close_def
  by (rule nth_list_update_field [where g = sock_user and f = "\<lambda>y. y\<lparr>ws_closed := True\<rparr>"])
     simp

lemma length_ws_close [simp]: "length (ws_close j xs) = length xs"
  by (simp add: ws_close_def)

lemma sock_user_upsert [simp]:
  "sock_user (xs[j := (xs ! j)\<lparr>upsert_listeners := b\<rparr>] ! i) = sock_user (xs ! i)"
  by (rule nth_list_update_field [where g = sock_user
        and f = "\<lambda>y. y\<lparr>upsert_listeners := b\<rparr>"]) simp

lemma task_inv_disconnect_handler: "task_inv s \<Longrightarrow> task_inv (disconnect_handler c u s)"
  by (rule task_inv_later [of s])
     (auto simp: disconnect_handler_def Let_def split: option.splits if_splits)

lemma task_inv_fold_disconnect:
  "task_inv s \<Longrightarrow> task_inv (fold (disconnect_handler c) hs s)"
  by (induction hs arbitrary: s) (simp_all add: task_inv_disconnect_handler)

lemma task_inv_auth_resume: "task_inv s \<Longrightarrow> task_inv (auth_resume c u out s)"
  by (rule task_inv_later [of s], assumption; cases out)
     (auto simp: auth_resume_def connectWhatsApp_return_def new_socket_def upd_client_def
        emit_def effect_def Let_def nth_append split: option.splits)

lemma task_inv_reconnect_resume: "task_inv s \<Longrightarrow> task_inv (reconnect_resume i out s)"
  by (rule task_inv_later [of s], assumption; cases out)
     (auto simp: reconnect_resume_def connectWhatsApp_return_def effect_def nth_append)

lemma task_inv_open_resume: "task_inv s \<Longrightarrow> task_inv (open_resume i fetched s)"
  by (rule task_inv_later [of s])
     (auto simp: open_resume_def effect_def Let_def split: option.splits)

lemma task_inv_on_connection_update:
  "task_inv s \<Longrightarrow> i < length (sockets s) \<Longrightarrow>
   task_inv (on_connection_update i upd pe ff s)"
  by (auto simp: task_inv_def on_connection_update_def Let_def connectWhatsApp_call_def
        suspend_def effect_def emit_def createUserStore_def split: option.splits)

lemma task_inv_step: "task_inv s \<Longrightarrow> task_inv (step s ev)"
proof (cases ev)
  case (IoConnection c)
  assume "task_inv s"
  then show ?thesis using IoConnection
    by (simp add: task_inv_def on_connection_def upd_client_def)
next
  case (ClientAuth c d)
  assume "task_inv s"
  then show ?thesis using ClientAuth
    by (auto simp: task_inv_def on_auth_def emit_def effect_def connectWhatsApp_call_def
          suspend_def split: option.splits)
next
  case (ClientListGroups c)
  assume "task_inv s"
  then show ?thesis using ClientListGroups
    by (simp add: fold_listGroups_handler)
next
  case (ClientSendMessage c g m)
  assume "task_inv s"
  then show ?thesis using ClientSendMessage
    by (auto simp: task_inv_def on_sendMessage_def emit_def effect_def suspend_def
          split: option.splits)
next
  case (ClientDisconnect c)
  assume "task_inv s"
  then have "task_inv (upd_client c (\<lambda>k. k\<lparr>live := False\<rparr>) s)"
    by (simp add: task_inv_def upd_client_def)
  then show ?thesis using ClientDisconnect \<open>task_inv s\<close>
    by (simp add: task_inv_fold_disconnect)
next
  case (AuthConnectDone c u out)
  assume "task_inv s"
  then show ?thesis using AuthConnectDone
    by (simp add: resume_def task_inv_auth_resume task_inv_drop)
next
  case (ReconnectDone i out)
  assume "task_inv s"
  then show ?thesis using ReconnectDone
    by (simp add: resume_def task_inv_reconnect_resume task_inv_drop)
next
  case (GroupsFetched i f)
  assume "task_inv s"
  then show ?thesis using GroupsFetched
    by (simp add: resume_def task_inv_open_resume task_inv_drop)
next
  case (SendDone c ok)
  assume "task_inv s"
  then show ?thesis using SendDone
    by (simp add: resume_def send_resume_def emit_def effect_def task_inv_drop)
next
  case (WaConnectionUpdate i upd pe ff)
  assume "task_inv s"
  then show ?thesis using WaConnectionUpdate
    by (simp add: task_inv_on_connection_update)
next
  case (WaCredsUpdate i)
  assume "task_inv s"
  then show ?thesis using WaCredsUpdate
    by (simp add: effect_def)
next
  case (WaMessagesUpsert i m)
  assume "task_inv s"
  then show ?thesis using WaMessagesUpsert
    by simp
qed

lemma task_inv_foldl: "task_inv s \<Longrightarrow> task_inv (foldl step s evs)"
  by (induction evs arbitrary: s) (simp_all add: task_inv_step)

lemma task_inv_run: "task_inv (run evs)"
  by (simp add: run_def task_inv_foldl task_inv_init)

text \<open>The invariant \<open>listeners_inv\<close> holds in every state the server can reach.\<close>

lemma listeners_inv_init: "listeners_inv init"
  by (simp add: listeners_inv_def init_def)

lemma listening_ws_close [simp]: "listening (ws_close j xs ! i) = listening (xs ! i)"
  unfolding ws_close_def
  by (rule nth_list_update_field [where g = listening and f = "\<lambda>y. y\<lparr>ws_closed := True\<rparr>"])
     simp

lemma listening_upsert [simp]:
  "listening (xs[j := (xs ! j)\<lparr>upsert_listeners := b\<rparr>] ! i) = listening (xs ! i)"
  by (rule nth_list_update_field [where g = listening
        and f = "\<lambda>y. y\<lparr>upsert_listeners := b\<rparr>"]) simp

lemma listeners_inv_disconnect_handler:
  "listeners_inv s \<Longrightarrow> listeners_inv (disconnect_handler c u s)"
  by (auto simp: listeners_inv_def disconnect_handler_def Let_def split: option.splits)

lemma listeners_inv_fold_disconnect:
  "listeners_inv s \<Longrightarrow> listeners_inv (fold (disconnect_handler c) hs s)"
  by (induction hs arbitrary: s) (simp_all add: listeners_inv_disconnect_handler)

lemma listeners_inv_auth_resume:
  "listeners_inv s \<Longrightarrow> listeners_inv (auth_resume c u out s)"
  by (cases out)
     (auto simp: listeners_inv_def auth_resume_def connectWhatsApp_return_def new_socket_def
        upd_client_def emit_def effect_def Let_def nth_append split: option.splits)

lemma listeners_inv_reconnect_resume:
  "listeners_inv s \<Longrightarrow> listeners_inv (reconnect_resume i out s)"
  by (cases out)
     (auto simp: listeners_inv_def reconnect_resume_def connectWhatsApp_return_def
        new_socket_def effect_def nth_append)

lemma sockets_on_connection_update:
  "sockets (on_connection_update i upd pe ff s) = sockets s"
  by (auto simp: on_connection_update_def Let_def connectWhatsApp_call_def suspend_def
        effect_def emit_def createUserStore_def split: option.splits)

lemma sockets_open_resume: "sockets (open_resume i fetched s) = sockets s"
  by (simp add: open_resume_def effect_def Let_def split: option.splits)

lemma listeners_inv_step: "listeners_inv s \<Longrightarrow> listeners_inv (step s ev)"
proof (cases ev)
  case (IoConnection c)
  assume "listeners_inv s"
  then show ?thesis using IoConnection
    by (simp add: listeners_inv_def on_connection_def upd_client_def)
next
  case (ClientAuth c d)
  assume "listeners_inv s"
  then show ?thesis using ClientAuth
    by (simp add: listeners_inv_def on_auth_def emit_def effect_def connectWhatsApp_call_def
          suspend_def split: option.splits)
next
  case (ClientListGroups c)
  assume "listeners_inv s"
  then show ?thesis using ClientListGroups
    by (simp add: fold_listGroups_handler listeners_inv_def)
next
  case (ClientSendMessage c g m)
  assume "listeners_inv s"
  then show ?thesis using ClientSendMessage
    by (simp add: listeners_inv_def on_sendMessage_def emit_def effect_def suspend_def
          split: option.splits)
next
  case (ClientDisconnect c)
  assume "listeners_inv s"
  then have "listeners_inv (upd_client c (\<lambda>k. k\<lparr>live := False\<rparr>) s)"
    by (simp add: listeners_inv_def upd_client_def)
  then show ?thesis using ClientDisconnect \<open>listeners_inv s\<close>
    by (simp add: listeners_inv_fold_disconnect)
next
  case (AuthConnectDone c u out)
  assume "listeners_inv s"
  then have "listeners_inv (s\<lparr>pending := remove1 (AuthK c u) (pending s)\<rparr>)"
    by (simp add: listeners_inv_def)
  then show ?thesis using AuthConnectDone \<open>listeners_inv s\<close>
    by (simp add: resume_def listeners_inv_auth_resume)
next
  case (ReconnectDone i out)
  assume "listeners_inv s"
  then have "listeners_inv (s\<lparr>pending := remove1 (ReconnK i) (pending s)\<rparr>)"
    by (simp add: listeners_inv_def)
  then show ?thesis using ReconnectDone \<open>listeners_inv s\<close>
    by (simp add: resume_def listeners_inv_reconnect_resume)
next
  case (GroupsFetched i f)
  assume "listeners_inv s"
  then show ?thesis using GroupsFetched
    by (simp add: resume_def listeners_inv_def sockets_open_resume)
next
  case (SendDone c ok)
  assume "listeners_inv s"
  then show ?thesis using SendDone
    by (simp add: resume_def send_resume_def emit_def effect_def listeners_inv_def)
next
  case (WaConnectionUpdate i upd pe ff)
  assume "listeners_inv s"
  then show ?thesis using WaConnectionUpdate
    by (simp add: listeners_inv_def sockets_on_connection_update)
next
  case (WaCredsUpdate i)
  assume "listeners_inv s"
  then show ?thesis using WaCredsUpdate
    by (simp add: effect_def listeners_inv_def)
next
  case (WaMessagesUpsert i m)
  assume "listeners_inv s"
  then show ?thesis using WaMessagesUpsert
    by (simp add: listeners_inv_def)
qed

lemma listeners_inv_foldl: "listeners_inv s \<Longrightarrow> listeners_inv (foldl step s evs)"
  by (induction evs arbitrary: s) (simp_all add: listeners_inv_step)

lemma listeners_inv_run: "listeners_inv (run evs)"
  by (simp add: run_def listeners_inv_foldl listeners_inv_init)

subsection \<open>Authentication\<close>

text \<open>
  The first half of the auth handler goes on to connect whenever the user has no entry,
  whatever is suspended; the second half stores the entry whenever the connection is
  established; and when the connection attempt throws on a client whose variable
  \<^verbatim>\<open>baileysInstance\<close> is undefined, the handler notifies and then throws.
\<close>

lemma on_auth_without_entry:
  "u \<noteq> [] \<Longrightarrow> activeSockets s u = None \<Longrightarrow>
   on_auth c (Some u) s = connectWhatsApp_call u (suspend (AuthK c u) s)"
  by (simp add: on_auth_def)

lemma auth_resume_stores_entry:
  "activeSockets (auth_resume c u Established s) u
     = Some \<lparr>clientId = c, baileysInstance = length (sockets s)\<rparr>"
  by (simp add: auth_resume_def connectWhatsApp_return_def upd_client_def Let_def)

lemma auth_resume_throws_undefined:
  "let_baileysInstance (clients s c) = None \<Longrightarrow>
   auth_resume c u ConnThrows s
     = s\<lparr>trace := trace s @ [Emit c (ErrorEv ConnectFailed), UnhandledRejection TypeError]\<rparr>"
  by (simp add: auth_resume_def connectWhatsApp_return_def emit_def effect_def Let_def)

text \<open>
  When the second \<^verbatim>\<open>auth\<close> for a user arrives after the first one has stored its entry,
  it is rejected with \<^verbatim>\<open>already_connected\<close>.
\<close>

lemma sequential_auth_rejected:
  "trace (run [IoConnection ''A'', IoConnection ''B'',
               ClientAuth ''A'' (Some ''u''), AuthConnectDone ''A'' ''u'' Established,
               ClientAuth ''B'' (Some ''u'')])
     = [ConnectStart ''u'', Emit ''B'' (Status AlreadyConnected)]"
  by (simp add: handler_defs)

text \<open>
  C1. The claim: of several \<^verbatim>\<open>auth\<close> requests for one user that interleave at the
  \<^verbatim>\<open>await\<close> of the connection establishment, exactly one creates the entry and every other
  one is answered with \<^verbatim>\<open>already_connected\<close>. The code looks the entry up before the
  \<^verbatim>\<open>await\<close> (line 161) and stores it after (line 171). Two clients \<open>A\<close> and \<open>B\<close> that ask
  for user \<open>u\<close> while neither connection is established both pass the lookup: nobody is
  told \<^verbatim>\<open>already_connected\<close>, two protocol instances for \<open>u\<close> are made and stay live, and
  the entry of \<open>A\<close> is overwritten by that of \<open>B\<close>.
\<close>

theorem concurrent_auth_both_accepted:
  "trace (run [IoConnection ''A'', IoConnection ''B'',
               ClientAuth ''A'' (Some ''u''), ClientAuth ''B'' (Some ''u''),
               AuthConnectDone ''A'' ''u'' Established,
               AuthConnectDone ''B'' ''u'' Established])
     = [ConnectStart ''u'', ConnectStart ''u'']
   \<and> sockets (run [IoConnection ''A'', IoConnection ''B'',
               ClientAuth ''A'' (Some ''u''), ClientAuth ''B'' (Some ''u''),
               AuthConnectDone ''A'' ''u'' Established,
               AuthConnectDone ''B'' ''u'' Established])
     = [\<lparr>sock_user = ''u'', sock_client = ''A'', listening = True,
         upsert_listeners = 1, ws_closed = False\<rparr>,
        \<lparr>sock_user = ''u'', sock_client = ''B'', listening = True,
         upsert_listeners = 1, ws_closed = False\<rparr>]
   \<and> activeSockets (run [IoConnection ''A'', IoConnection ''B'',
               ClientAuth ''A'' (Some ''u''), ClientAuth ''B'' (Some ''u''),
               AuthConnectDone ''A'' ''u'' Established,
               AuthConnectDone ''B'' ''u'' Established]) ''u''
     = Some \<lparr>clientId = ''B'', baileysInstance = 1\<rparr>"
  by (simp add: handler_defs)

text \<open>
  C3. The claim: an error raised while the connection is established during
  \<^verbatim>\<open>auth\<close> reaches the client as an \<^verbatim>\<open>error\<close> notification only, with no retry, no entry
  and no exception leaving the handler. On a client that has not authenticated before, the
  \<^verbatim>\<open>catch\<close> of line 172 does notify and no entry is stored, but the handler goes on to line
  178 with \<^verbatim>\<open>baileysInstance\<close> undefined: a \<^verbatim>\<open>TypeError\<close> leaves the handler, and the
  \<^verbatim>\<open>disconnect\<close> and \<^verbatim>\<open>listGroups\<close> handlers are never registered.
\<close>

theorem failed_auth_throws_after_catch:
  "trace (run [IoConnection ''A'', ClientAuth ''A'' (Some ''u''),
               AuthConnectDone ''A'' ''u'' ConnThrows])
     = [ConnectStart ''u'', Emit ''A'' (ErrorEv ConnectFailed), UnhandledRejection TypeError]
   \<and> activeSockets (run [IoConnection ''A'', ClientAuth ''A'' (Some ''u''),
               AuthConnectDone ''A'' ''u'' ConnThrows]) ''u'' = None
   \<and> auth_handlers (clients (run [IoConnection ''A'', ClientAuth ''A'' (Some ''u''),
               AuthConnectDone ''A'' ''u'' ConnThrows]) ''A'') = []"
  by (simp add: handler_defs)

subsection \<open>Close events\<close>

text \<open>Whatever the outcome of a reconnect, the registry and the variables
  \<^verbatim>\<open>baileysInstance\<close> stay as they were.\<close>

lemma reconnect_resume_keeps_registry:
  "activeSockets (reconnect_resume i out s) = activeSockets s
   \<and> clients (reconnect_resume i out s) = clients s"
  by (cases out) (simp_all add: reconnect_resume_def connectWhatsApp_return_def effect_def)

text \<open>
  C2. The claim: after a reconnect the entry of the user refers to the newly made
  protocol instance. Line 103 drops the instance that \<^verbatim>\<open>connectWhatsApp\<close> returns: after a
  close with reason 428 and a successful reconnect, the entry (and the variable
  \<^verbatim>\<open>baileysInstance\<close>) still refer to instance 0 while the new one is instance 1; when the
  client then disconnects, the teardown calls \<^verbatim>\<open>ws.close()\<close> on instance 0 and leaves the
  connection of instance 1 open.
\<close>

theorem reconnect_keeps_stale_instance:
  "activeSockets (run [IoConnection ''A'', ClientAuth ''A'' (Some ''u''),
                       AuthConnectDone ''A'' ''u'' Established,
                       WaConnectionUpdate 0
                         \<lparr>connection = Some Close, statusCode = Some 428, qr = None\<rparr> True [],
                       ReconnectDone 0 Established]) ''u''
     = Some \<lparr>clientId = ''A'', baileysInstance = 0\<rparr>
   \<and> sockets (run [IoConnection ''A'', ClientAuth ''A'' (Some ''u''),
                       AuthConnectDone ''A'' ''u'' Established,
                       WaConnectionUpdate 0
                         \<lparr>connection = Some Close, statusCode = Some 428, qr = None\<rparr> True [],
                       ReconnectDone 0 Established])
     = [\<lparr>sock_user = ''u'', sock_client = ''A'', listening = True,
         upsert_listeners = 1, ws_closed = False\<rparr>,
        \<lparr>sock_user = ''u'', sock_client = ''A'', listening = True,
         upsert_listeners = 0, ws_closed = False\<rparr>]
   \<and> sockets (run [IoConnection ''A'', ClientAuth ''A'' (Some ''u''),
                       AuthConnectDone ''A'' ''u'' Established,
                       WaConnectionUpdate 0
                         \<lparr>connection = Some Close, statusCode = Some 428, qr = None\<rparr> True [],
                       ReconnectDone 0 Established, ClientDisconnect ''A''])
     = [\<lparr>sock_user = ''u'', sock_client = ''A'', listening = True,
         upsert_listeners = 1, ws_closed = True\<rparr>,
        \<lparr>sock_user = ''u'', sock_client = ''A'', listening = True,
         upsert_listeners = 0, ws_closed = False\<rparr>]"
  by (simp add: handler_defs loggedOut_def)

text \<open>
  C4, as the claim states it: a close event with the logged-out reason, for a user with an
  entry, deletes the credential material, removes the entry and notifies the owning
  client of \<^verbatim>\<open>disconnected\<close>, unconditionally. First run: lines 107-112 do all three only
  if the credential directory exists; when it does not, the entry stays and nothing is
  emitted. Second run: the listener notifies the client of its own closure, which need not
  be the client stored in the entry; clients \<open>A\<close> and \<open>B\<close> authenticate as \<open>u\<close> at the same
  time, the entry is owned by \<open>B\<close>, and the logged-out close of the instance of \<open>A\<close>
  removes the entry of \<open>B\<close> and notifies \<open>A\<close> only.
\<close>

theorem logout_without_credentials_counterexample:
  "activeSockets (run [IoConnection ''A'', ClientAuth ''A'' (Some ''u''),
                       AuthConnectDone ''A'' ''u'' Established,
                       WaConnectionUpdate 0
                         \<lparr>connection = Some Close, statusCode = Some loggedOut, qr = None\<rparr>
                         False []]) ''u''
     = Some \<lparr>clientId = ''A'', baileysInstance = 0\<rparr>
   \<and> trace (run [IoConnection ''A'', ClientAuth ''A'' (Some ''u''),
                       AuthConnectDone ''A'' ''u'' Established,
                       WaConnectionUpdate 0
                         \<lparr>connection = Some Close, statusCode = Some loggedOut, qr = None\<rparr>
                         False []])
     = [ConnectStart ''u'']
   \<and> activeSockets (run [IoConnection ''A'', IoConnection ''B'',
                       ClientAuth ''A'' (Some ''u''), ClientAuth ''B'' (Some ''u''),
                       AuthConnectDone ''A'' ''u'' Established,
                       AuthConnectDone ''B'' ''u'' Established]) ''u''
     = Some \<lparr>clientId = ''B'', baileysInstance = 1\<rparr>
   \<and> activeSockets (run [IoConnection ''A'', IoConnection ''B'',
                       ClientAuth ''A'' (Some ''u''), ClientAuth ''B'' (Some ''u''),
                       AuthConnectDone ''A'' ''u'' Established,
                       AuthConnectDone ''B'' ''u'' Established,
                       WaConnectionUpdate 0
                         \<lparr>connection = Some Close, statusCode = Some loggedOut, qr = None\<rparr>
                         True []]) ''u''
     = None
   \<and> trace (run [IoConnection ''A'', IoConnection ''B'',
                       ClientAuth ''A'' (Some ''u''), ClientAuth ''B'' (Some ''u''),
                       AuthConnectDone ''A'' ''u'' Established,
                       AuthConnectDone ''B'' ''u'' Established,
                       WaConnectionUpdate 0
                         \<lparr>connection = Some Close, statusCode = Some loggedOut, qr = None\<rparr>
                         True []])
     = [ConnectStart ''u'', ConnectStart ''u'', RmCreds ''u'',
        Emit ''A'' (Status Disconnected)]"
  by (simp add: handler_defs)

text \<open>
  C4, amended: for a user \<open>u\<close> with an entry, when a close event with the logged-out reason
  reaches the listener of an instance of \<open>u\<close> that was made in the connection of the client
  stored in the entry, and the credential directory exists, then the directory is
  deleted, the entry is removed and \<^verbatim>\<open>disconnected\<close> is emitted to the client stored in
  the entry, each exactly once, and nothing else changes (a pairing code carried by the
  same update is relayed first).
\<close>

theorem logout_close_with_credentials:
  assumes "i < length (sockets s)" and "listening (sockets s ! i)"
    and "activeSockets s (sock_user (sockets s ! i)) = Some e"
    and "sock_client (sockets s ! i) = clientId e"
    and "connection upd = Some Close" and "statusCode upd = Some loggedOut"
  shows "step s (WaConnectionUpdate i upd True from_file) =
           s\<lparr>activeSockets := (activeSockets s)(sock_user (sockets s ! i) := None),
             trace := trace s @ relay_qr (clientId e) upd
                        @ [RmCreds (sock_user (sockets s ! i)),
                           Emit (clientId e) (Status Disconnected)]\<rparr>"
  using assms by (auto simp: on_connection_update_def effect_def emit_def Let_def)

text \<open>The amended C4 at the state reached by one successful \<^verbatim>\<open>auth\<close> of user \<open>u\<close> from
  client \<open>A\<close>.\<close>

theorem logout_close_with_credentials_witness:
  "0 < length (sockets (run [IoConnection ''A'', ClientAuth ''A'' (Some ''u''),
                             AuthConnectDone ''A'' ''u'' Established]))
   \<and> activeSockets (run [IoConnection ''A'', ClientAuth ''A'' (Some ''u''),
                             AuthConnectDone ''A'' ''u'' Established]) ''u''
       = Some \<lparr>clientId = ''A'', baileysInstance = 0\<rparr>
   \<and> sock_client (sockets (run [IoConnection ''A'', ClientAuth ''A'' (Some ''u''),
                             AuthConnectDone ''A'' ''u'' Established]) ! 0) = ''A''
   \<and> activeSockets (step (run [IoConnection ''A'', ClientAuth ''A'' (Some ''u''),
                             AuthConnectDone ''A'' ''u'' Established])
        (WaConnectionUpdate 0
           \<lparr>connection = Some Close, statusCode = Some loggedOut, qr = None\<rparr> True [])) ''u''
       = None
   \<and> trace (step (run [IoConnection ''A'', ClientAuth ''A'' (Some ''u''),
                             AuthConnectDone ''A'' ''u'' Established])
        (WaConnectionUpdate 0
           \<lparr>connection = Some Close, statusCode = Some loggedOut, qr = None\<rparr> True []))
       = [ConnectStart ''u'', RmCreds ''u'', Emit ''A'' (Status Disconnected)]"
proof -
  let ?s = "run [IoConnection ''A'', ClientAuth ''A'' (Some ''u''),
                 AuthConnectDone ''A'' ''u'' Established]"
  let ?upd = "\<lparr>connection = Some Close, statusCode = Some loggedOut, qr = None\<rparr>"
  let ?e = "\<lparr>clientId = ''A'', baileysInstance = 0\<rparr>"
  have s: "sockets ?s = [\<lparr>sock_user = ''u'', sock_client = ''A'', listening = True,
                          upsert_listeners = 1, ws_closed = False\<rparr>]"
    by (simp add: handler_defs)
  have a: "activeSockets ?s ''u'' = Some ?e"
    by (simp add: handler_defs)
  have t: "trace ?s = [ConnectStart ''u'']"
    by (simp add: handler_defs)
  have h1: "0 < length (sockets ?s)" and h2: "listening (sockets ?s ! 0)"
    and h3: "activeSockets ?s (sock_user (sockets ?s ! 0)) = Some ?e"
    and h4: "sock_client (sockets ?s ! 0) = clientId ?e"
    using s a by simp_all
  have h5: "connection ?upd = Some Close" and h6: "statusCode ?upd = Some loggedOut"
    by simp_all
  from logout_close_with_credentials [OF h1 h2 h3 h4 h5 h6, of "[]"]
  show ?thesis using s a t by (simp add: relay_qr_def)
qed

text \<open>
  C5. For a user whose entry exists, one close event with a reason other than logged-out
  calls \<^verbatim>\<open>connectWhatsApp\<close> for that user exactly once, in the same handler run, and does
  nothing else: the registry, the stores, the instances and the credential directory are
  left as they were (a pairing code carried by the same update is relayed first). When the
  attempt has settled, either a new instance for the same user and client has been made,
  or the rethrown exception has left the listener; the registry is as it was in both
  cases.
\<close>

theorem close_reconnects_once:
  assumes "i < length (sockets s)" and "listening (sockets s ! i)"
    and "activeSockets s (sock_user (sockets s ! i)) \<noteq> None"
    and "connection upd = Some Close" and "statusCode upd \<noteq> Some loggedOut"
  shows "step s (WaConnectionUpdate i upd path_exists from_file)
           = s\<lparr>pending := pending s @ [ReconnK i],
               trace := trace s @ relay_qr (sock_client (sockets s ! i)) upd
                          @ [ConnectStart (sock_user (sockets s ! i))]\<rparr>
       \<and> connect_attempts (trace (step s (WaConnectionUpdate i upd path_exists from_file)))
           = connect_attempts (trace s) @ [sock_user (sockets s ! i)]
       \<and> step (step s (WaConnectionUpdate i upd path_exists from_file))
               (ReconnectDone i Established)
           = s\<lparr>sockets := sockets s
                            @ [new_socket (sock_user (sockets s ! i)) (sock_client (sockets s ! i))],
               pending := remove1 (ReconnK i) (pending s @ [ReconnK i]),
               trace := trace s @ relay_qr (sock_client (sockets s ! i)) upd
                          @ [ConnectStart (sock_user (sockets s ! i))]\<rparr>
       \<and> step (step s (WaConnectionUpdate i upd path_exists from_file))
               (ReconnectDone i ConnThrows)
           = s\<lparr>pending := remove1 (ReconnK i) (pending s @ [ReconnK i]),
               trace := trace s @ relay_qr (sock_client (sockets s ! i)) upd
                          @ [ConnectStart (sock_user (sockets s ! i)),
                             UnhandledRejection ConnectError]\<rparr>"
proof -
  let ?s1 = "step s (WaConnectionUpdate i upd path_exists from_file)"
  have s1: "?s1 = s\<lparr>pending := pending s @ [ReconnK i],
                    trace := trace s @ relay_qr (sock_client (sockets s ! i)) upd
                               @ [ConnectStart (sock_user (sockets s ! i))]\<rparr>"
    using assms
    by (auto simp: on_connection_update_def connectWhatsApp_call_def suspend_def effect_def
          Let_def)
  have a: "connect_attempts (trace ?s1) = connect_attempts (trace s) @ [sock_user (sockets s ! i)]"
    unfolding s1 by (simp add: connect_attempts_append connect_attempts_relay_qr)
  have b: "step ?s1 (ReconnectDone i Established)
           = s\<lparr>sockets := sockets s
                            @ [new_socket (sock_user (sockets s ! i)) (sock_client (sockets s ! i))],
               pending := remove1 (ReconnK i) (pending s @ [ReconnK i]),
               trace := trace s @ relay_qr (sock_client (sockets s ! i)) upd
                          @ [ConnectStart (sock_user (sockets s ! i))]\<rparr>"
    unfolding s1
    by (simp add: resume_def reconnect_resume_def connectWhatsApp_return_def)
  have c: "step ?s1 (ReconnectDone i ConnThrows)
           = s\<lparr>pending := remove1 (ReconnK i) (pending s @ [ReconnK i]),
               trace := trace s @ relay_qr (sock_client (sockets s ! i)) upd
                          @ [ConnectStart (sock_user (sockets s ! i)),
                             UnhandledRejection ConnectError]\<rparr>"
    unfolding s1
    by (simp add: resume_def reconnect_resume_def connectWhatsApp_return_def effect_def)
  from s1 a b c show ?thesis by (intro conjI)
qed

text \<open>C5 at the state reached by one successful \<^verbatim>\<open>auth\<close> of user \<open>u\<close>, with the close
  reason 428.\<close>

theorem close_reconnects_once_witness:
  "activeSockets (run [IoConnection ''A'', ClientAuth ''A'' (Some ''u''),
                       AuthConnectDone ''A'' ''u'' Established]) ''u''
     = Some \<lparr>clientId = ''A'', baileysInstance = 0\<rparr>
   \<and> trace (step (run [IoConnection ''A'', ClientAuth ''A'' (Some ''u''),
                        AuthConnectDone ''A'' ''u'' Established])
              (WaConnectionUpdate 0
                 \<lparr>connection = Some Close, statusCode = Some 428, qr = None\<rparr> True []))
     = [ConnectStart ''u'', ConnectStart ''u'']
   \<and> activeSockets
       (step (step (run [IoConnection ''A'', ClientAuth ''A'' (Some ''u''),
                         AuthConnectDone ''A'' ''u'' Established])
                (WaConnectionUpdate 0
                   \<lparr>connection = Some Close, statusCode = Some 428, qr = None\<rparr> True []))
             (ReconnectDone 0 Established)) ''u''
     = Some \<lparr>clientId = ''A'', baileysInstance = 0\<rparr>
   \<and> sockets
       (step (step (run [IoConnection ''A'', ClientAuth ''A'' (Some ''u''),
                         AuthConnectDone ''A'' ''u'' Established])
                (WaConnectionUpdate 0
                   \<lparr>connection = Some Close, statusCode = Some 428, qr = None\<rparr> True []))
             (ReconnectDone 0 Established))
     = [\<lparr>sock_user = ''u'', sock_client = ''A'', listening = True,
         upsert_listeners = 1, ws_closed = False\<rparr>,
        \<lparr>sock_user = ''u'', sock_client = ''A'', listening = True,
         upsert_listeners = 0, ws_closed = False\<rparr>]"
proof -
  let ?s = "run [IoConnection ''A'', ClientAuth ''A'' (Some ''u''),
                 AuthConnectDone ''A'' ''u'' Established]"
  let ?upd = "\<lparr>connection = Some Close, statusCode = Some 428, qr = None\<rparr>"
  have s: "sockets ?s = [\<lparr>sock_user = ''u'', sock_client = ''A'', listening = True,
                          upsert_listeners = 1, ws_closed = False\<rparr>]"
    by (simp add: handler_defs)
  have a: "activeSockets ?s ''u'' = Some \<lparr>clientId = ''A'', baileysInstance = 0\<rparr>"
    by (simp add: handler_defs)
  have t: "trace ?s = [ConnectStart ''u'']"
    by (simp add: handler_defs)
  have h1: "0 < length (sockets ?s)" and h2: "listening (sockets ?s ! 0)"
    and h3: "activeSockets ?s (sock_user (sockets ?s ! 0)) \<noteq> None"
    using s a by simp_all
  have h4: "connection ?upd = Some Close" and h5: "statusCode ?upd \<noteq> Some loggedOut"
    by (simp_all add: loggedOut_def)
  note r = close_reconnects_once [OF h1 h2 h3 h4 h5, of True "[]"]
  from r have one: "trace (step ?s (WaConnectionUpdate 0 ?upd True []))
                      = [ConnectStart ''u'', ConnectStart ''u'']"
    using s t by (simp add: relay_qr_def)
  from r have two: "step (step ?s (WaConnectionUpdate 0 ?upd True [])) (ReconnectDone 0 Established)
           = ?s\<lparr>sockets := sockets ?s
                            @ [new_socket (sock_user (sockets ?s ! 0)) (sock_client (sockets ?s ! 0))],
               pending := remove1 (ReconnK 0) (pending ?s @ [ReconnK 0]),
               trace := trace ?s @ relay_qr (sock_client (sockets ?s ! 0)) ?upd
                          @ [ConnectStart (sock_user (sockets ?s ! 0))]\<rparr>"
    by blast
  have three: "activeSockets (step (step ?s (WaConnectionUpdate 0 ?upd True []))
                                   (ReconnectDone 0 Established)) ''u''
                 = Some \<lparr>clientId = ''A'', baileysInstance = 0\<rparr>"
    unfolding two using a by simp
  have four: "sockets (step (step ?s (WaConnectionUpdate 0 ?upd True []))
                            (ReconnectDone 0 Established))
     = [\<lparr>sock_user = ''u'', sock_client = ''A'', listening = True,
         upsert_listeners = 1, ws_closed = False\<rparr>,
        \<lparr>sock_user = ''u'', sock_client = ''A'', listening = True,
         upsert_listeners = 0, ws_closed = False\<rparr>]"
    unfolding two using s by (simp add: new_socket_def)
  from a one three four show ?thesis by (intro conjI)
qed

text \<open>
  When a close event reaches an instance whose user has no entry at that moment, the
  guard of lines 95-98 returns: no connection attempt is made and no handler is
  suspended; only a pairing code carried by the same update has been relayed by lines
  85-88.
\<close>

lemma close_without_entry_is_ignored:
  assumes "i < length (sockets s)"
    and "activeSockets s (sock_user (sockets s ! i)) = None"
    and "connection upd = Some Close"
  shows "step s (WaConnectionUpdate i upd path_exists from_file)
           = (if listening (sockets s ! i)
              then s\<lparr>trace := trace s @ relay_qr (sock_client (sockets s ! i)) upd\<rparr> else s)
       \<and> connect_attempts (trace (step s (WaConnectionUpdate i upd path_exists from_file)))
           = connect_attempts (trace s)
       \<and> pending (step s (WaConnectionUpdate i upd path_exists from_file)) = pending s"
  using assms
  by (cases "listening (sockets s ! i)")
     (simp_all add: on_connection_update_def Let_def connect_attempts_append
        connect_attempts_relay_qr)

text \<open>
  C6. The claim: once the entry of a user has been removed, for example because the
  owning client disconnected, no later close event for that user triggers a reconnect: a
  session nobody owns is never resurrected. The guard of line 95 asks only whether the
  user has an entry now, and the teardown detaches no listener (line 194 removes the
  listeners of an event named \<^verbatim>\<open>undefined\<close>, although its comment says that it removes all
  of them to prevent a reconnect). Client \<open>A\<close> authenticates as \<open>u\<close> and disconnects: the
  entry is removed and the connection of instance 0 is closed, its listeners stay. Client
  \<open>B\<close> then authenticates as \<open>u\<close>. The close event of instance 0 now finds an entry, that
  of \<open>B\<close>, and reconnects: a third connection attempt for \<open>u\<close> is made, and instance 2 is
  made for \<open>u\<close> in the closure of the disconnected client \<open>A\<close>.
\<close>

theorem close_after_reauth_reconnects:
  "activeSockets (run [IoConnection ''A'', IoConnection ''B'',
                       ClientAuth ''A'' (Some ''u''), AuthConnectDone ''A'' ''u'' Established,
                       ClientDisconnect ''A'']) ''u'' = None
   \<and> sockets (run [IoConnection ''A'', IoConnection ''B'',
                       ClientAuth ''A'' (Some ''u''), AuthConnectDone ''A'' ''u'' Established,
                       ClientDisconnect ''A''])
     = [\<lparr>sock_user = ''u'', sock_client = ''A'', listening = True,
         upsert_listeners = 1, ws_closed = True\<rparr>]
   \<and> connect_attempts
       (trace (run [IoConnection ''A'', IoConnection ''B'',
                    ClientAuth ''A'' (Some ''u''), AuthConnectDone ''A'' ''u'' Established,
                    ClientDisconnect ''A'',
                    ClientAuth ''B'' (Some ''u''), AuthConnectDone ''B'' ''u'' Established,
                    WaConnectionUpdate 0
                      \<lparr>connection = Some Close, statusCode = Some 428, qr = None\<rparr> True []]))
     = [''u'', ''u'', ''u'']
   \<and> sockets (run [IoConnection ''A'', IoConnection ''B'',
                    ClientAuth ''A'' (Some ''u''), AuthConnectDone ''A'' ''u'' Established,
                    ClientDisconnect ''A'',
                    ClientAuth ''B'' (Some ''u''), AuthConnectDone ''B'' ''u'' Established,
                    WaConnectionUpdate 0
                      \<lparr>connection = Some Close, statusCode = Some 428, qr = None\<rparr> True [],
                    ReconnectDone 0 Established])
     = [\<lparr>sock_user = ''u'', sock_client = ''A'', listening = True,
         upsert_listeners = 1, ws_closed = True\<rparr>,
        \<lparr>sock_user = ''u'', sock_client = ''B'', listening = True,
         upsert_listeners = 1, ws_closed = False\<rparr>,
        \<lparr>sock_user = ''u'', sock_client = ''A'', listening = True,
         upsert_listeners = 0, ws_closed = False\<rparr>]
   \<and> live (clients (run [IoConnection ''A'', IoConnection ''B'',
                    ClientAuth ''A'' (Some ''u''), AuthConnectDone ''A'' ''u'' Established,
                    ClientDisconnect ''A'',
                    ClientAuth ''B'' (Some ''u''), AuthConnectDone ''B'' ''u'' Established,
                    WaConnectionUpdate 0
                      \<lparr>connection = Some Close, statusCode = Some 428, qr = None\<rparr> True [],
                    ReconnectDone 0 Established]) ''A'') = False"
  by (simp add: handler_defs loggedOut_def)

subsection \<open>Listing groups\<close>

text \<open>A \<^verbatim>\<open>listGroups\<close> handler whose user has no store changes nothing.\<close>

lemma listGroups_handler_without_store:
  "getUserStore s u = None \<Longrightarrow> listGroups_handler c u s = s"
  by (simp add: listGroups_handler_def)

text \<open>
  C9. The claim: a \<^verbatim>\<open>listGroups\<close> command for a user without a store is answered with an
  error notification. After a successful \<^verbatim>\<open>auth\<close> of \<open>u\<close> whose connection has not opened
  yet, the handler is registered and no store exists; \<^verbatim>\<open>getUserStore(userId).chats\<close> throws
  and the \<^verbatim>\<open>catch\<close> of lines 213-215 only writes to the console: nothing is emitted to the
  client.
\<close>

theorem listGroups_without_store_is_silent:
  "auth_handlers (clients (run [IoConnection ''A'', ClientAuth ''A'' (Some ''u''),
               AuthConnectDone ''A'' ''u'' Established]) ''A'') = [''u'']
   \<and> getUserStore (run [IoConnection ''A'', ClientAuth ''A'' (Some ''u''),
               AuthConnectDone ''A'' ''u'' Established]) ''u'' = None
   \<and> trace (run [IoConnection ''A'', ClientAuth ''A'' (Some ''u''),
               AuthConnectDone ''A'' ''u'' Established, ClientListGroups ''A''])
     = trace (run [IoConnection ''A'', ClientAuth ''A'' (Some ''u''),
               AuthConnectDone ''A'' ''u'' Established])"
  by (simp add: handler_defs)

subsection \<open>Transport disconnect\<close>






text \<open>A foreign entry and its instance, and the entries of a client's own users.\<close>

lemma disconnect_handler_removes_own:
  "activeSockets (disconnect_handler c v s) u = activeSockets s u
   \<or> (\<exists>e. activeSockets s u = Some e \<and> clientId e = c)"
  by (auto simp: disconnect_handler_def Let_def split: option.splits)

lemma fold_disconnect_removes_own:
  "activeSockets (fold (disconnect_handler c) hs s) u = activeSockets s u
   \<or> (\<exists>e. activeSockets s u = Some e \<and> clientId e = c)"
proof (induction hs arbitrary: s)
  case Nil
  then show ?case by simp
next
  case (Cons v hs)
  from Cons.IH [of "disconnect_handler c v s"] disconnect_handler_removes_own [of c v s u]
  show ?case by auto
qed





subsection \<open>Connection open and group sync\<close>

text \<open>The \<^verbatim>\<open>forEach\<close> of lines 131-136 only adds chats, made from fetched groups and with
  ids that the store did not have, and afterwards the store has a chat for every fetched
  id.\<close>

lemma foldl_insert_if_absent_adds:
  "\<exists>added. foldl insert_if_absent st chs = st \<union> added \<and> added \<subseteq> set chs
           \<and> chat_id ` added \<inter> chat_id ` st = {}"
proof (induction chs arbitrary: st)
  case Nil
  then show ?case by simp
next
  case (Cons ch chs)
  obtain added where a: "foldl insert_if_absent (insert_if_absent st ch) chs
                           = insert_if_absent st ch \<union> added"
    and b: "added \<subseteq> set chs"
    and c: "chat_id ` added \<inter> chat_id ` insert_if_absent st ch = {}"
    using Cons.IH [of "insert_if_absent st ch"] by blast
  show ?case
  proof (cases "chats_has st (chat_id ch)")
    case True
    then have "insert_if_absent st ch = st"
      by (simp add: insert_if_absent_def)
    then have "foldl insert_if_absent st (ch # chs) = st \<union> added"
      and "chat_id ` added \<inter> chat_id ` st = {}"
      using a c by simp_all
    moreover have "added \<subseteq> set (ch # chs)"
      using b by auto
    ultimately show ?thesis by blast
  next
    case False
    then have i: "insert_if_absent st ch = insert ch st"
      by (simp add: insert_if_absent_def)
    have "foldl insert_if_absent st (ch # chs) = st \<union> insert ch added"
      using a i by simp
    moreover have "insert ch added \<subseteq> set (ch # chs)"
      using b by auto
    moreover have "chat_id ` insert ch added \<inter> chat_id ` st = {}"
      using c i False by (auto simp: chats_has_def)
    ultimately show ?thesis by blast
  qed
qed

lemma insert_if_absent_has_id: "chat_id ch \<in> chat_id ` insert_if_absent st ch"
  by (auto simp: insert_if_absent_def chats_has_def)

lemma foldl_insert_if_absent_keeps: "st \<subseteq> foldl insert_if_absent st chs"
  using foldl_insert_if_absent_adds [of st chs] by auto

lemma foldl_insert_if_absent_has_ids:
  "chat_id ` set chs \<subseteq> chat_id ` foldl insert_if_absent st chs"
proof (induction chs arbitrary: st)
  case Nil
  then show ?case by simp
next
  case (Cons ch chs)
  have "chat_id ch \<in> chat_id ` foldl insert_if_absent (insert_if_absent st ch) chs"
    using insert_if_absent_has_id [of ch st]
      foldl_insert_if_absent_keeps [of "insert_if_absent st ch" chs] by blast
  then show ?case using Cons.IH [of "insert_if_absent st ch"] by simp
qed

lemma chat_id_chat_of_group [simp]: "chat_id (chat_of_group g) = group_id g"
  by (simp add: chat_of_group_def)

text \<open>
  C8, as the claim states it: when the open event is processed, the store is created and
  every returned group is upserted before \<^verbatim>\<open>connected\<close> is delivered, so that a client
  that sends \<^verbatim>\<open>listGroups\<close> on receiving \<^verbatim>\<open>connected\<close> sees the synced groups. Line 118
  emits \<^verbatim>\<open>connected\<close> first; the store is created at line 119 and filled only after the
  \<^verbatim>\<open>await\<close> of line 120. A \<^verbatim>\<open>listGroups\<close> that is processed before the group fetch
  returns is answered with the groups of the snapshot file, here none, although the fetch
  then returns two groups.
\<close>

theorem connected_before_sync_counterexample:
  "trace (run [IoConnection ''A'', ClientAuth ''A'' (Some ''u1''),
               AuthConnectDone ''A'' ''u1'' Established,
               WaConnectionUpdate 0
                 \<lparr>connection = Some Open, statusCode = None, qr = None\<rparr> True [],
               ClientListGroups ''A'',
               GroupsFetched 0
                 (Some [\<lparr>group_id = ''1@g.us'', subject = ''one'', group_participants = [],
                         creation = 0\<rparr>,
                        \<lparr>group_id = ''2@g.us'', subject = ''two'', group_participants = [],
                         creation = 0\<rparr>])])
     = [ConnectStart ''u1'', Emit ''A'' (Status Connected), StartFlush ''u1'', FetchGroups 0,
        Emit ''A'' (Groups {})]"
  by (simp add: handler_defs)

text \<open>
  C8, amended: when the open event reaches the listener of an instance of user \<open>u\<close>,
  \<^verbatim>\<open>connected\<close> is emitted first, then the store of \<open>u\<close> is created (from the snapshot
  file) or found, and the group fetch is started; nothing else changes. When the fetch has
  returned, the store holds its former chats unchanged and, in addition, chats made from
  returned groups whose ids it did not have; it holds a chat for the id of every returned
  group; nothing else changes; and a \<^verbatim>\<open>listGroups\<close> handler of \<open>u\<close> that runs then sends
  the group chats of that store, among them one for every returned group whose id ends in
  \<^verbatim>\<open>@g.us\<close>. The order of the chats in what is sent is the library's and is not stated.
\<close>

theorem open_notifies_then_syncs:
  assumes "i < length (sockets s)" and "listening (sockets s ! i)"
    and "connection upd = Some Open"
  shows "let u = sock_user (sockets s ! i); c = sock_client (sockets s ! i);
             st1 = (case userStores s u of None \<Rightarrow> set from_file | Some st \<Rightarrow> st);
             s1 = step s (WaConnectionUpdate i upd path_exists from_file)
         in s1 = s\<lparr>userStores := (userStores s)(u \<mapsto> st1),
                   pending := pending s @ [OpenK i],
                   trace := trace s @ relay_qr c upd @ [Emit c (Status Connected)]
                         @ (if userStores s u = None then [StartFlush u] else [])
                         @ [FetchGroups i]\<rparr>
          \<and> (\<forall>gs. \<exists>added.
                step s1 (GroupsFetched i (Some gs))
                  = s1\<lparr>userStores := (userStores s1)(u \<mapsto> st1 \<union> added),
                       pending := remove1 (OpenK i) (pending s1)\<rparr>
              \<and> added \<subseteq> chat_of_group ` set gs
              \<and> chat_id ` added \<inter> chat_id ` st1 = {}
              \<and> group_id ` set gs \<subseteq> chat_id ` (st1 \<union> added)
              \<and> trace (listGroups_handler c u (step s1 (GroupsFetched i (Some gs))))
                  = trace s1 @ [Emit c (Groups (filter_groups (st1 \<union> added)))]
              \<and> group_id ` {g \<in> set gs. endsWith (group_id g) ''@g.us''}
                  \<subseteq> chat_id ` filter_groups (st1 \<union> added))"
proof -
  define u where "u = sock_user (sockets s ! i)"
  define c where "c = sock_client (sockets s ! i)"
  define st1 where "st1 = (case userStores s u of None \<Rightarrow> set from_file | Some st \<Rightarrow> st)"
  define s1 where "s1 = step s (WaConnectionUpdate i upd path_exists from_file)"
  have s1: "s1 = s\<lparr>userStores := (userStores s)(u \<mapsto> st1),
                   pending := pending s @ [OpenK i],
                   trace := trace s @ relay_qr c upd @ [Emit c (Status Connected)]
                         @ (if userStores s u = None then [StartFlush u] else [])
                         @ [FetchGroups i]\<rparr>"
    using assms unfolding s1_def u_def c_def st1_def
    by (auto simp: on_connection_update_def createUserStore_def effect_def emit_def
          suspend_def Let_def fun_upd_idem split: option.splits)
  have us1: "userStores s1 u = Some st1" and so1: "sockets s1 = sockets s"
    and p1: "OpenK i \<in> set (pending s1)"
    unfolding s1 by simp_all
  have sync: "\<exists>added.
                step s1 (GroupsFetched i (Some gs))
                  = s1\<lparr>userStores := (userStores s1)(u \<mapsto> st1 \<union> added),
                       pending := remove1 (OpenK i) (pending s1)\<rparr>
              \<and> added \<subseteq> chat_of_group ` set gs
              \<and> chat_id ` added \<inter> chat_id ` st1 = {}
              \<and> group_id ` set gs \<subseteq> chat_id ` (st1 \<union> added)
              \<and> trace (listGroups_handler c u (step s1 (GroupsFetched i (Some gs))))
                  = trace s1 @ [Emit c (Groups (filter_groups (st1 \<union> added)))]
              \<and> group_id ` {g \<in> set gs. endsWith (group_id g) ''@g.us''}
                  \<subseteq> chat_id ` filter_groups (st1 \<union> added)" for gs
  proof -
    let ?s2 = "step s1 (GroupsFetched i (Some gs))"
    obtain added where a: "foldl insert_if_absent st1 (map chat_of_group gs) = st1 \<union> added"
      and b: "added \<subseteq> set (map chat_of_group gs)"
      and n: "chat_id ` added \<inter> chat_id ` st1 = {}"
      using foldl_insert_if_absent_adds [of st1 "map chat_of_group gs"] by blast
    have s2: "?s2 = s1\<lparr>userStores := (userStores s1)(u \<mapsto> st1 \<union> added),
                       pending := remove1 (OpenK i) (pending s1)\<rparr>"
      using p1 us1 so1 a by (simp add: resume_def open_resume_def u_def Let_def)
    have ids: "group_id ` set gs \<subseteq> chat_id ` (st1 \<union> added)"
      using foldl_insert_if_absent_has_ids [of "map chat_of_group gs" st1] a
      by (simp add: image_image)
    have tr: "trace (listGroups_handler c u ?s2)
                = trace s1 @ [Emit c (Groups (filter_groups (st1 \<union> added)))]"
      unfolding s2 by (simp add: listGroups_handler_def getUserStore_def emit_def effect_def)
    have listed: "group_id ` {g \<in> set gs. endsWith (group_id g) ''@g.us''}
                    \<subseteq> chat_id ` filter_groups (st1 \<union> added)"
    proof
      fix x
      assume "x \<in> group_id ` {g \<in> set gs. endsWith (group_id g) ''@g.us''}"
      then obtain g where g: "g \<in> set gs" "endsWith x ''@g.us''" "x = group_id g"
        by auto
      then have "x \<in> chat_id ` (st1 \<union> added)"
        using ids by blast
      then obtain ch where ch: "ch \<in> st1 \<union> added" "chat_id ch = x"
        by blast
      then have "ch \<in> filter_groups (st1 \<union> added)"
        using g by (simp add: filter_groups_def)
      then show "x \<in> chat_id ` filter_groups (st1 \<union> added)"
        using ch by auto
    qed
    have b': "added \<subseteq> chat_of_group ` set gs"
      using b by simp
    from s2 b' n ids tr listed show ?thesis
      by (intro exI [of _ added] conjI)
  qed
  have "s1 = s\<lparr>userStores := (userStores s)(u \<mapsto> st1),
                   pending := pending s @ [OpenK i],
                   trace := trace s @ relay_qr c upd @ [Emit c (Status Connected)]
                         @ (if userStores s u = None then [StartFlush u] else [])
                         @ [FetchGroups i]\<rparr>
          \<and> (\<forall>gs. \<exists>added.
                step s1 (GroupsFetched i (Some gs))
                  = s1\<lparr>userStores := (userStores s1)(u \<mapsto> st1 \<union> added),
                       pending := remove1 (OpenK i) (pending s1)\<rparr>
              \<and> added \<subseteq> chat_of_group ` set gs
              \<and> chat_id ` added \<inter> chat_id ` st1 = {}
              \<and> group_id ` set gs \<subseteq> chat_id ` (st1 \<union> added)
              \<and> trace (listGroups_handler c u (step s1 (GroupsFetched i (Some gs))))
                  = trace s1 @ [Emit c (Groups (filter_groups (st1 \<union> added)))]
              \<and> group_id ` {g \<in> set gs. endsWith (group_id g) ''@g.us''}
                  \<subseteq> chat_id ` filter_groups (st1 \<union> added))"
  proof (intro conjI allI)
    show "s1 = s\<lparr>userStores := (userStores s)(u \<mapsto> st1),
                   pending := pending s @ [OpenK i],
                   trace := trace s @ relay_qr c upd @ [Emit c (Status Connected)]
                         @ (if userStores s u = None then [StartFlush u] else [])
                         @ [FetchGroups i]\<rparr>"
      by (rule s1)
  next
    fix gs
    show "\<exists>added.
                step s1 (GroupsFetched i (Some gs))
                  = s1\<lparr>userStores := (userStores s1)(u \<mapsto> st1 \<union> added),
                       pending := remove1 (OpenK i) (pending s1)\<rparr>
              \<and> added \<subseteq> chat_of_group ` set gs
              \<and> chat_id ` added \<inter> chat_id ` st1 = {}
              \<and> group_id ` set gs \<subseteq> chat_id ` (st1 \<union> added)
              \<and> trace (listGroups_handler c u (step s1 (GroupsFetched i (Some gs))))
                  = trace s1 @ [Emit c (Groups (filter_groups (st1 \<union> added)))]
              \<and> group_id ` {g \<in> set gs. endsWith (group_id g) ''@g.us''}
                  \<subseteq> chat_id ` filter_groups (st1 \<union> added)"
      by (rule sync)
  qed
  then show ?thesis
    unfolding Let_def u_def c_def st1_def s1_def .
qed

text \<open>
  The amended C8 on the scenario of the specification: user \<open>u1\<close> authenticates, the
  connection opens, the groups \<^verbatim>\<open>1@g.us\<close> and \<^verbatim>\<open>2@g.us\<close> are fetched, and the client
  then lists its groups.
\<close>

theorem open_notifies_then_syncs_witness:
  "listening (sockets (run [IoConnection ''A'', ClientAuth ''A'' (Some ''u1''),
                            AuthConnectDone ''A'' ''u1'' Established]) ! 0)
   \<and> trace (run [IoConnection ''A'', ClientAuth ''A'' (Some ''u1''),
                  AuthConnectDone ''A'' ''u1'' Established,
                  WaConnectionUpdate 0
                    \<lparr>connection = Some Open, statusCode = None, qr = None\<rparr> True []])
       = [ConnectStart ''u1'', Emit ''A'' (Status Connected), StartFlush ''u1'', FetchGroups 0]
   \<and> trace (run [IoConnection ''A'', ClientAuth ''A'' (Some ''u1''),
                  AuthConnectDone ''A'' ''u1'' Established,
                  WaConnectionUpdate 0
                    \<lparr>connection = Some Open, statusCode = None, qr = None\<rparr> True [],
                  GroupsFetched 0
                    (Some [\<lparr>group_id = ''1@g.us'', subject = ''one'', group_participants = [],
                            creation = 0\<rparr>,
                           \<lparr>group_id = ''2@g.us'', subject = ''two'', group_participants = [],
                            creation = 0\<rparr>]),
                  ClientListGroups ''A''])
       = [ConnectStart ''u1'', Emit ''A'' (Status Connected), StartFlush ''u1'', FetchGroups 0,
          Emit ''A'' (Groups
            {\<lparr>chat_id = ''1@g.us'', chat_name = ''one'', participants = [],
              conversationTimestamp = 0, unreadCount = 0, messages = []\<rparr>,
             \<lparr>chat_id = ''2@g.us'', chat_name = ''two'', participants = [],
              conversationTimestamp = 0, unreadCount = 0, messages = []\<rparr>})]"
proof -
  let ?s = "run [IoConnection ''A'', ClientAuth ''A'' (Some ''u1''),
                 AuthConnectDone ''A'' ''u1'' Established]"
  let ?upd = "\<lparr>connection = Some Open, statusCode = None, qr = None\<rparr>"
  have s: "sockets ?s = [\<lparr>sock_user = ''u1'', sock_client = ''A'', listening = True,
                          upsert_listeners = 1, ws_closed = False\<rparr>]"
    by (simp add: handler_defs)
  have t: "trace ?s = [ConnectStart ''u1'']" and n: "userStores ?s ''u1'' = None"
    by (simp_all add: handler_defs)
  have h1: "0 < length (sockets ?s)" and h2: "listening (sockets ?s ! 0)"
    using s by simp_all
  have h3: "connection ?upd = Some Open"
    by simp
  have r: "run [IoConnection ''A'', ClientAuth ''A'' (Some ''u1''),
                AuthConnectDone ''A'' ''u1'' Established,
                WaConnectionUpdate 0 ?upd True []]
             = step ?s (WaConnectionUpdate 0 ?upd True [])"
    by (simp add: run_def)
  from open_notifies_then_syncs [OF h1 h2 h3, where path_exists = True and from_file = "[]"]
  have "step ?s (WaConnectionUpdate 0 ?upd True [])
          = ?s\<lparr>userStores := (userStores ?s)(''u1'' \<mapsto> {}),
               pending := pending ?s @ [OpenK 0],
               trace := trace ?s @ relay_qr ''A'' ?upd @ [Emit ''A'' (Status Connected)]
                   @ (if userStores ?s ''u1'' = None then [StartFlush ''u1''] else [])
                   @ [FetchGroups 0]\<rparr>"
    unfolding Let_def using s n by simp
  then have one: "trace (step ?s (WaConnectionUpdate 0 ?upd True []))
          = [ConnectStart ''u1'', Emit ''A'' (Status Connected), StartFlush ''u1'',
             FetchGroups 0]"
    using t n by (simp add: relay_qr_def)
  have two: "trace (run [IoConnection ''A'', ClientAuth ''A'' (Some ''u1''),
                  AuthConnectDone ''A'' ''u1'' Established,
                  WaConnectionUpdate 0 ?upd True [],
                  GroupsFetched 0
                    (Some [\<lparr>group_id = ''1@g.us'', subject = ''one'', group_participants = [],
                            creation = 0\<rparr>,
                           \<lparr>group_id = ''2@g.us'', subject = ''two'', group_participants = [],
                            creation = 0\<rparr>]),
                  ClientListGroups ''A''])
       = [ConnectStart ''u1'', Emit ''A'' (Status Connected), StartFlush ''u1'', FetchGroups 0,
          Emit ''A'' (Groups
            {\<lparr>chat_id = ''1@g.us'', chat_name = ''one'', participants = [],
              conversationTimestamp = 0, unreadCount = 0, messages = []\<rparr>,
             \<lparr>chat_id = ''2@g.us'', chat_name = ''two'', participants = [],
              conversationTimestamp = 0, unreadCount = 0, messages = []\<rparr>})]"
    by (simp add: handler_defs insert_commute)
  from h2 one two show ?thesis unfolding r by blast
qed

subsection \<open>Handlers registered by repeated authentication\<close>

lemma groups_reply_all_stores:
  "\<forall>v\<in>set hs. userStores s v \<noteq> None \<Longrightarrow>
   concat (map (groups_reply s c) hs)
     = map (\<lambda>v. Emit c (Groups (filter_groups (the (userStores s v))))) hs"
  by (induction hs) (auto simp: groups_reply_def)

lemma disconnect_handler_other:
  "v \<noteq> u \<Longrightarrow> activeSockets (disconnect_handler c v s) u = activeSockets s u"
  by (simp add: disconnect_handler_def Let_def split: option.splits)

lemma disconnect_handler_own:
  "activeSockets s u = Some e \<Longrightarrow> clientId e = c \<Longrightarrow>
   activeSockets (disconnect_handler c u s) u = None"
  by (simp add: disconnect_handler_def Let_def split: option.splits)

lemma fold_disconnect_none:
  "activeSockets s u = None \<Longrightarrow> activeSockets (fold (disconnect_handler c) hs s) u = None"
  using fold_disconnect_removes_own [of c hs s u] by auto

lemma fold_disconnect_removes:
  "u \<in> set hs \<Longrightarrow> activeSockets s u = Some e \<Longrightarrow> clientId e = c \<Longrightarrow>
   activeSockets (fold (disconnect_handler c) hs s) u = None"
proof (induction hs arbitrary: s)
  case Nil
  then show ?case by simp
next
  case (Cons v hs)
  show ?case
  proof (cases "v = u")
    case True
    then show ?thesis
      using Cons.prems by (simp add: fold_disconnect_none disconnect_handler_own)
  next
    case False
    then show ?thesis
      using Cons.prems Cons.IH [of "disconnect_handler c v s"]
      by (simp add: disconnect_handler_other)
  qed
qed

text \<open>
  C10, as the claim states it: every \<^verbatim>\<open>auth\<close> event that passes the two rejections adds a
  \<^verbatim>\<open>disconnect\<close> and a \<^verbatim>\<open>listGroups\<close> handler, so that after \<open>N\<close> such events one
  \<^verbatim>\<open>listGroups\<close> command makes the server emit \<^verbatim>\<open>groups\<close> \<open>N\<close> times. Each handler is
  bound to the user of its own \<^verbatim>\<open>auth\<close> event and emits only if that user has a store.
  Client \<open>A\<close> authenticates as \<open>u1\<close> and as \<open>u2\<close>; only the connection of \<open>u1\<close> has opened,
  so only \<open>u1\<close> has a store: both handlers are registered and one \<^verbatim>\<open>listGroups\<close> command
  makes the server emit \<^verbatim>\<open>groups\<close> once, not twice.
\<close>

theorem groups_not_emitted_per_handler_counterexample:
  "auth_handlers (clients (run [IoConnection ''A'',
               ClientAuth ''A'' (Some ''u1''), AuthConnectDone ''A'' ''u1'' Established,
               ClientAuth ''A'' (Some ''u2''), AuthConnectDone ''A'' ''u2'' Established,
               WaConnectionUpdate 0
                 \<lparr>connection = Some Open, statusCode = None, qr = None\<rparr> True [],
               GroupsFetched 0 (Some []),
               ClientListGroups ''A'']) ''A'') = [''u1'', ''u2'']
   \<and> trace (run [IoConnection ''A'',
               ClientAuth ''A'' (Some ''u1''), AuthConnectDone ''A'' ''u1'' Established,
               ClientAuth ''A'' (Some ''u2''), AuthConnectDone ''A'' ''u2'' Established,
               WaConnectionUpdate 0
                 \<lparr>connection = Some Open, statusCode = None, qr = None\<rparr> True [],
               GroupsFetched 0 (Some []),
               ClientListGroups ''A''])
     = [ConnectStart ''u1'', ConnectStart ''u2'', Emit ''A'' (Status Connected),
        StartFlush ''u1'', FetchGroups 0, Emit ''A'' (Groups {})]"
  by (simp add: handler_defs)

text \<open>
  C10, amended. For a connected client \<open>c\<close> whose registered handlers are bound to the
  users \<open>hs\<close> (one pair of handlers per element, in registration order):
  \<^item> an \<^verbatim>\<open>auth\<close> run for \<open>u\<close> that passed the two rejections and whose connection gets
    established adds one \<^verbatim>\<open>disconnect\<close> and one \<^verbatim>\<open>listGroups\<close> handler, bound to \<open>u\<close>;
  \<^item> one \<^verbatim>\<open>listGroups\<close> command runs every handler once, and each handler whose user has
    a store emits \<^verbatim>\<open>groups\<close> once, so \<^verbatim>\<open>groups\<close> is emitted once per handler when every
    such user has a store;
  \<^item> one transport disconnect runs the \<^verbatim>\<open>disconnect\<close> handlers one after the other, one
    run per registered handler, and removes every entry of a user of \<open>hs\<close> that \<open>c\<close> owns.
\<close>

theorem handlers_accumulate:
  assumes "live (clients s c)"
  shows "(AuthK c u \<in> set (pending s) \<longrightarrow>
            auth_handlers (clients (step s (AuthConnectDone c u Established)) c)
              = auth_handlers (clients s c) @ [u])
       \<and> trace (step s (ClientListGroups c))
           = trace s @ concat (map (groups_reply s c) (auth_handlers (clients s c)))
       \<and> ((\<forall>v\<in>set (auth_handlers (clients s c)). userStores s v \<noteq> None) \<longrightarrow>
            concat (map (groups_reply s c) (auth_handlers (clients s c)))
              = map (\<lambda>v. Emit c (Groups (filter_groups (the (userStores s v)))))
                  (auth_handlers (clients s c)))
       \<and> step s (ClientDisconnect c)
           = fold (disconnect_handler c) (auth_handlers (clients s c))
               (upd_client c (\<lambda>k. k\<lparr>live := False\<rparr>) s)
       \<and> (\<forall>v\<in>set (auth_handlers (clients s c)). \<forall>e.
             activeSockets s v = Some e \<and> clientId e = c \<longrightarrow>
             activeSockets (step s (ClientDisconnect c)) v = None)"
proof -
  have reg: "auth_handlers (clients (step s (AuthConnectDone c u Established)) c)
              = auth_handlers (clients s c) @ [u]" if "AuthK c u \<in> set (pending s)"
    using that
    by (simp add: resume_def auth_resume_def connectWhatsApp_return_def upd_client_def Let_def)
  have lst: "trace (step s (ClientListGroups c))
           = trace s @ concat (map (groups_reply s c) (auth_handlers (clients s c)))"
    using assms by (simp add: fold_listGroups_handler)
  have dis: "step s (ClientDisconnect c)
           = fold (disconnect_handler c) (auth_handlers (clients s c))
               (upd_client c (\<lambda>k. k\<lparr>live := False\<rparr>) s)"
    using assms by simp
  have rem: "activeSockets (step s (ClientDisconnect c)) v = None"
    if "v \<in> set (auth_handlers (clients s c))" "activeSockets s v = Some e" "clientId e = c"
    for v e
    unfolding dis using that
    by (intro fold_disconnect_removes [where e = e]) (simp_all add: upd_client_def)
  show ?thesis
  proof (intro conjI impI ballI allI)
    assume "AuthK c u \<in> set (pending s)"
    then show "auth_handlers (clients (step s (AuthConnectDone c u Established)) c)
                 = auth_handlers (clients s c) @ [u]"
      by (rule reg)
  next
    show "trace (step s (ClientListGroups c))
            = trace s @ concat (map (groups_reply s c) (auth_handlers (clients s c)))"
      by (rule lst)
  next
    assume "\<forall>v\<in>set (auth_handlers (clients s c)). userStores s v \<noteq> None"
    then show "concat (map (groups_reply s c) (auth_handlers (clients s c)))
              = map (\<lambda>v. Emit c (Groups (filter_groups (the (userStores s v)))))
                  (auth_handlers (clients s c))"
      by (rule groups_reply_all_stores)
  next
    show "step s (ClientDisconnect c)
           = fold (disconnect_handler c) (auth_handlers (clients s c))
               (upd_client c (\<lambda>k. k\<lparr>live := False\<rparr>) s)"
      by (rule dis)
  next
    fix v e
    assume v: "v \<in> set (auth_handlers (clients s c))"
      and e: "activeSockets s v = Some e \<and> clientId e = c"
    from e have e1: "activeSockets s v = Some e" and e2: "clientId e = c"
      by simp_all
    from rem [OF v e1 e2] show "activeSockets (step s (ClientDisconnect c)) v = None" .
  qed
qed

text \<open>
  The amended C10 for client \<open>A\<close> that has authenticated as \<open>u1\<close>, whose connection has opened
  and synced one group, and whose \<^verbatim>\<open>auth\<close> for \<open>u2\<close> is waiting for its connection.
\<close>

theorem handlers_accumulate_witness:
  "live (clients (run [IoConnection ''A'',
            ClientAuth ''A'' (Some ''u1''), AuthConnectDone ''A'' ''u1'' Established,
            WaConnectionUpdate 0
              \<lparr>connection = Some Open, statusCode = None, qr = None\<rparr> True [],
            GroupsFetched 0
              (Some [\<lparr>group_id = ''1@g.us'', subject = ''one'', group_participants = [],
                      creation = 0\<rparr>]),
            ClientAuth ''A'' (Some ''u2'')]) ''A'')
   \<and> auth_handlers (clients (step (run [IoConnection ''A'',
            ClientAuth ''A'' (Some ''u1''), AuthConnectDone ''A'' ''u1'' Established,
            WaConnectionUpdate 0
              \<lparr>connection = Some Open, statusCode = None, qr = None\<rparr> True [],
            GroupsFetched 0
              (Some [\<lparr>group_id = ''1@g.us'', subject = ''one'', group_participants = [],
                      creation = 0\<rparr>]),
            ClientAuth ''A'' (Some ''u2'')]) (AuthConnectDone ''A'' ''u2'' Established)) ''A'')
       = [''u1'', ''u2'']
   \<and> trace (step (run [IoConnection ''A'',
            ClientAuth ''A'' (Some ''u1''), AuthConnectDone ''A'' ''u1'' Established,
            WaConnectionUpdate 0
              \<lparr>connection = Some Open, statusCode = None, qr = None\<rparr> True [],
            GroupsFetched 0
              (Some [\<lparr>group_id = ''1@g.us'', subject = ''one'', group_participants = [],
                      creation = 0\<rparr>]),
            ClientAuth ''A'' (Some ''u2'')]) (ClientListGroups ''A''))
       = [ConnectStart ''u1'', Emit ''A'' (Status Connected), StartFlush ''u1'', FetchGroups 0,
          ConnectStart ''u2'',
          Emit ''A'' (Groups
            {\<lparr>chat_id = ''1@g.us'', chat_name = ''one'', participants = [],
              conversationTimestamp = 0, unreadCount = 0, messages = []\<rparr>})]
   \<and> activeSockets (step (run [IoConnection ''A'',
            ClientAuth ''A'' (Some ''u1''), AuthConnectDone ''A'' ''u1'' Established,
            WaConnectionUpdate 0
              \<lparr>connection = Some Open, statusCode = None, qr = None\<rparr> True [],
            GroupsFetched 0
              (Some [\<lparr>group_id = ''1@g.us'', subject = ''one'', group_participants = [],
                      creation = 0\<rparr>]),
            ClientAuth ''A'' (Some ''u2'')]) (ClientDisconnect ''A'')) ''u1'' = None"
proof -
  let ?s = "run [IoConnection ''A'',
            ClientAuth ''A'' (Some ''u1''), AuthConnectDone ''A'' ''u1'' Established,
            WaConnectionUpdate 0
              \<lparr>connection = Some Open, statusCode = None, qr = None\<rparr> True [],
            GroupsFetched 0
              (Some [\<lparr>group_id = ''1@g.us'', subject = ''one'', group_participants = [],
                      creation = 0\<rparr>]),
            ClientAuth ''A'' (Some ''u2'')]"
  let ?ch = "\<lparr>chat_id = ''1@g.us'', chat_name = ''one'', participants = [],
              conversationTimestamp = 0, unreadCount = 0, messages = []\<rparr>"
  have l: "live (clients ?s ''A'')"
    by (simp add: handler_defs)
  have p: "AuthK ''A'' ''u2'' \<in> set (pending ?s)"
    by (simp add: handler_defs)
  have hs: "auth_handlers (clients ?s ''A'') = [''u1'']"
    by (simp add: handler_defs)
  have st: "userStores ?s ''u1'' = Some {?ch}"
    by (simp add: handler_defs)
  have tr: "trace ?s = [ConnectStart ''u1'', Emit ''A'' (Status Connected), StartFlush ''u1'',
                        FetchGroups 0, ConnectStart ''u2'']"
    by (simp add: handler_defs)
  have en: "activeSockets ?s ''u1'' = Some \<lparr>clientId = ''A'', baileysInstance = 0\<rparr>"
    by (simp add: handler_defs)
  note acc = handlers_accumulate [OF l, of "''u2''"]
  from acc p hs have one:
    "auth_handlers (clients (step ?s (AuthConnectDone ''A'' ''u2'' Established)) ''A'')
       = [''u1'', ''u2'']"
    by simp
  from acc have "trace (step ?s (ClientListGroups ''A''))
                   = trace ?s @ concat (map (groups_reply ?s ''A'') (auth_handlers (clients ?s ''A'')))"
    by blast
  then have two: "trace (step ?s (ClientListGroups ''A''))
       = [ConnectStart ''u1'', Emit ''A'' (Status Connected), StartFlush ''u1'', FetchGroups 0,
          ConnectStart ''u2'', Emit ''A'' (Groups {?ch})]"
    unfolding hs tr
    by (simp add: groups_reply_def st filter_groups_empty filter_groups_insert endsWith_def)
  from acc have "\<forall>v\<in>set (auth_handlers (clients ?s ''A'')). \<forall>e.
             activeSockets ?s v = Some e \<and> clientId e = ''A'' \<longrightarrow>
             activeSockets (step ?s (ClientDisconnect ''A'')) v = None"
    by blast
  then have three: "activeSockets (step ?s (ClientDisconnect ''A'')) ''u1'' = None"
    unfolding hs using en by simp
  from l one two three show ?thesis by blast
qed

end
